theory Spec2Isabelle
  imports Complex_Main "HOL-Library.AList"
begin

section \<open>Event detector (engine/object_detection.py)\<close>

text \<open>
  A frame is an opaque image buffer; the model names each image by a number.
  Wall-clock readings (\<^verbatim>\<open>time.time()\<close>) and detection confidences are real numbers that
  the environment supplies: every function that reads the clock or runs inference takes
  the reading as an argument.  Sequence numbers are Python integers.
\<close>

datatype frame = Image nat

record clip =
  clip_start :: int
  clip_end :: int
  clip_frames :: "frame list"
  clip_last :: int

record detector =
  fps :: nat
  frame_id :: int
  frame_buffer :: "(frame \<times> int) list"
  pending :: "real list"
  global_last :: real
  active_clip :: "clip option"

record event =
  ev_type :: string
  ev_time :: real

definition GLOBAL_COOLDOWN :: real where
  "GLOBAL_COOLDOWN = 12"

text \<open>
  \<^verbatim>\<open>AccidentDetector.__init__\<close>: the ring buffer is \<^verbatim>\<open>deque(maxlen=fps * 20)\<close>, empty at
  first.  The frame rate is a natural number (the caller passes \<^verbatim>\<open>max(1, int(...))\<close>).
\<close>

definition init_detector :: "nat \<Rightarrow> detector" where
  "init_detector f =
     \<lparr>fps = f, frame_id = 0, frame_buffer = [], pending = [], global_last = 0,
      active_clip = None\<rparr>"

text \<open>
  \<^verbatim>\<open>deque.append\<close> on a deque with a \<^verbatim>\<open>maxlen\<close>: the item is added on the right and,
  when the deque is then longer than \<^verbatim>\<open>maxlen\<close>, one item is removed on the left.
\<close>

definition deque_append :: "nat \<Rightarrow> 'a list \<Rightarrow> 'a \<Rightarrow> 'a list" where
  "deque_append maxlen xs x =
     (let ys = xs @ [x] in if length ys > maxlen then tl ys else ys)"

text \<open>\<^verbatim>\<open>start_clip\<close>: the window around the current sequence number.\<close>

definition start_clip :: "detector \<Rightarrow> real \<Rightarrow> detector" where
  "start_clip d event_time =
     d\<lparr>active_clip :=
         Some \<lparr>clip_start = frame_id d - int (fps d * 5),
               clip_end = frame_id d + int (fps d * 5),
               clip_frames = [],
               clip_last = 0\<rparr>\<rparr>"

text \<open>
  \<^verbatim>\<open>process_frame\<close>.  \<open>boxes\<close> holds the confidences of the boxes that inference returned
  for the frame, \<open>now\<close> is the clock reading.  The result is the event list and the
  detector after the call.
\<close>

definition process_frame :: "detector \<Rightarrow> frame \<Rightarrow> real list \<Rightarrow> real \<Rightarrow> event list \<times> detector" where
  "process_frame d frm boxes now =
     (let fid = frame_id d + 1;
          d1 = d\<lparr>frame_id := fid,
                 frame_buffer := deque_append (fps d * 20) (frame_buffer d) (frm, fid)\<rparr>;
          detections = filter (\<lambda>conf. conf > 4 / 10) boxes
      in if detections \<noteq> [] \<and> now - global_last d1 > GLOBAL_COOLDOWN then
           (let d2 = d1\<lparr>pending := pending d1 @ [now]\<rparr>
            in if length (pending d2) \<ge> 3 then
                 ([\<lparr>ev_type = ''ACCIDENT'', ev_time = now\<rparr>],
                  start_clip (d2\<lparr>global_last := now, pending := []\<rparr>) now)
               else ([], d2))
         else ([], d1))"

section \<open>Clip encoder (\<^verbatim>\<open>write_clip\<close>)\<close>

text \<open>
  Everything outside the interpreter is the environment: the file system, the video
  writer, the external transcoder, the record store.  A call that changes it is logged as
  an \<open>effect\<close>, in program order; a call that asks it something takes the answer as an
  argument.
\<close>

datatype effect =
    WriteAvi string nat
  | RunFfmpeg string string
  | RemoveFile string
  | RenameFile string string
  | CreateAccident string real real
  | UpdateAccident nat "(string \<times> string) list"
  | StartUpload string nat
  | StorageUpload string

text \<open>How \<^verbatim>\<open>subprocess.run(..., check=True, timeout=30)\<close> ends.\<close>

datatype ffmpeg_result =
    Converted
  | CalledProcessError
  | FileNotFoundError
  | OtherException

text \<open>
  What one call of \<^verbatim>\<open>write_clip\<close> reads from the environment: the two readings of
  \<^verbatim>\<open>int(time.time())\<close>, how the transcoder ends, and the answer of
  \<^verbatim>\<open>os.path.exists(temp_name)\<close> after it.
\<close>

record write_env =
  t_temp :: int
  t_final :: int
  ffmpeg :: ffmpeg_result
  temp_exists :: bool

text \<open>Python's \<^verbatim>\<open>str\<close> of an integer, as the f-strings use it.\<close>

text \<open>The decimal digit of a number below ten.\<close>

definition digit_char :: "nat \<Rightarrow> char" where
  "digit_char n = ''0123456789'' ! n"

function show_nat :: "nat \<Rightarrow> string" where
  "show_nat n =
     (if n < 10 then [digit_char n]
      else show_nat (n div 10) @ [digit_char (n mod 10)])"
  by pat_completeness auto
termination
  by (relation "measure (\<lambda>n. n)") auto

declare show_nat.simps [simp del]

definition show_int :: "int \<Rightarrow> string" where
  "show_int i = (if i < 0 then CHR ''-'' # show_nat (nat (- i)) else show_nat (nat i))"

text \<open>Python's \<^verbatim>\<open>s.replace(old, new)\<close> for a non-empty \<open>old\<close>.\<close>

function str_replace :: "string \<Rightarrow> string \<Rightarrow> string \<Rightarrow> string" where
  "str_replace old new s =
     (if s = [] \<or> old = [] then s
      else if take (length old) s = old
        then new @ str_replace old new (drop (length old) s)
      else hd s # str_replace old new (tl s))"
  by pat_completeness auto
termination
  by (relation "measure (\<lambda>(old, new, s). length s)") auto

declare str_replace.simps [simp del]

definition temp_name :: "write_env \<Rightarrow> string" where
  "temp_name env = ''events/ACCIDENT_'' @ show_int (t_temp env) @ ''_temp.avi''"

definition final_name :: "write_env \<Rightarrow> string" where
  "final_name env = ''events/ACCIDENT_'' @ show_int (t_final env) @ ''.mp4''"

definition avi_name :: "write_env \<Rightarrow> string" where
  "avi_name env = str_replace ''.mp4'' ''.avi'' (final_name env)"

text \<open>
  The three \<^verbatim>\<open>except\<close> branches of \<^verbatim>\<open>write_clip\<close> have the same body: rename the
  intermediate file when it exists, otherwise return \<^verbatim>\<open>None\<close>.
\<close>

definition fallback :: "write_env \<Rightarrow> string option \<times> effect list" where
  "fallback env =
     (if temp_exists env then (Some (avi_name env), [RenameFile (temp_name env) (avi_name env)])
      else (None, []))"

definition write_clip :: "write_env \<Rightarrow> nat \<Rightarrow> clip \<Rightarrow> string option \<times> effect list" where
  "write_clip env rate clip =
     (if clip_frames clip = [] then (None, [])
      else
        (let written = [WriteAvi (temp_name env) rate,
                        RunFfmpeg (temp_name env) (final_name env)]
         in case ffmpeg env of
              Converted \<Rightarrow>
                (Some (final_name env),
                 written @ (if temp_exists env then [RemoveFile (temp_name env)] else []))
            | CalledProcessError \<Rightarrow> (fst (fallback env), written @ snd (fallback env))
            | FileNotFoundError \<Rightarrow> (fst (fallback env), written @ snd (fallback env))
            | OtherException \<Rightarrow> (fst (fallback env), written @ snd (fallback env))))"

section \<open>Clip window (\<^verbatim>\<open>handle_clip\<close>)\<close>

record clip_event =
  cev_type :: string
  clip_path :: string

text \<open>
  The loop of \<^verbatim>\<open>handle_clip\<close> over the ring buffer, oldest entry first.  It iterates
  the buffer and never indexes it.
\<close>

fun collect :: "(frame \<times> int) list \<Rightarrow> clip \<Rightarrow> clip" where
  "collect [] clip = clip"
| "collect ((frm, fid) # rest) clip =
     collect rest
       (if clip_start clip \<le> fid \<and> fid \<le> clip_end clip \<and> fid > clip_last clip
        then clip\<lparr>clip_frames := clip_frames clip @ [frm], clip_last := fid\<rparr>
        else clip)"

text \<open>
  \<^verbatim>\<open>handle_clip(final)\<close>: the clip-ready events, the detector after the call and the
  effects of \<^verbatim>\<open>write_clip\<close>.  \<^verbatim>\<open>if path:\<close> is false for \<^verbatim>\<open>None\<close> and for the empty
  string.
\<close>

definition handle_clip :: "write_env \<Rightarrow> detector \<Rightarrow> bool \<Rightarrow> clip_event list \<times> detector \<times> effect list" where
  "handle_clip env d final =
     (case active_clip d of
        None \<Rightarrow> ([], d, [])
      | Some clip0 \<Rightarrow>
          (let clip = collect (frame_buffer d) clip0
           in if final \<or> frame_id d > clip_end clip then
                (let (path, fx) = write_clip env (fps d) clip;
                     ready = (case path of
                                None \<Rightarrow> []
                              | Some p \<Rightarrow>
                                  if p \<noteq> [] then [\<lparr>cev_type = ''ACCIDENT'', clip_path = p\<rparr>]
                                  else [])
                 in (ready, d\<lparr>active_clip := None\<rparr>, fx))
              else ([], d\<lparr>active_clip := Some clip\<rparr>, [])))"

text \<open>A detector is driven by calls of its two methods.\<close>

datatype det_op =
    ProcessFrame frame "real list" real
  | HandleClip write_env bool

fun exec_op :: "detector \<Rightarrow> det_op \<Rightarrow> detector" where
  "exec_op d (ProcessFrame frm boxes now) = snd (process_frame d frm boxes now)"
| "exec_op d (HandleClip env final) = fst (snd (handle_clip env d final))"

definition exec_ops :: "detector \<Rightarrow> det_op list \<Rightarrow> detector" where
  "exec_ops d ops = foldl exec_op d ops"

section \<open>File names of the clip encoder\<close>

lemma digit_char_no_dot: "n < 10 \<Longrightarrow> digit_char n \<noteq> CHR ''.''"
proof -
  assume "n < 10"
  then have "n \<in> {0, 1, 2, 3, 4, 5, 6, 7, 8, 9}" by auto
  then show ?thesis
    by (auto simp: digit_char_def)
qed

lemma show_nat_no_dot: "CHR ''.'' \<notin> set (show_nat n)"
proof (induction n rule: show_nat.induct)
  case (1 n)
  show ?case
  proof (cases "n < 10")
    case True
    then show ?thesis
      using digit_char_no_dot [of n] by (subst show_nat.simps) auto
  next
    case False
    have "n mod 10 < 10" by simp
    then have "digit_char (n mod 10) \<noteq> CHR ''.''" by (rule digit_char_no_dot)
    with False 1 show ?thesis
      by (subst show_nat.simps) auto
  qed
qed

lemma show_int_no_dot: "CHR ''.'' \<notin> set (show_int i)"
  by (simp add: show_int_def show_nat_no_dot)

lemma str_replace_extension:
  "CHR ''.'' \<notin> set s \<Longrightarrow> str_replace ''.mp4'' ''.avi'' (s @ ''.mp4'') = s @ ''.avi''"
proof (induction s)
  case Nil
  show ?case
    by (simp add: str_replace.simps)
next
  case (Cons c s)
  then have c: "c \<noteq> CHR ''.''" and IH: "str_replace ''.mp4'' ''.avi'' (s @ ''.mp4'') = s @ ''.avi''"
    by auto
  show ?case
    using c IH by (subst str_replace.simps) simp
qed

lemma avi_name_eq: "avi_name env = ''events/ACCIDENT_'' @ show_int (t_final env) @ ''.avi''"
proof -
  have "CHR ''.'' \<notin> set (''events/ACCIDENT_'' @ show_int (t_final env))"
    using show_int_no_dot [of "t_final env"] by simp
  from str_replace_extension [OF this] show ?thesis
    by (simp add: avi_name_def final_name_def)
qed

lemma write_clip_path:
  assumes "fst (write_clip env rate clip) = Some p"
  shows "p \<noteq> []"
proof -
  have "final_name env \<noteq> []" and "avi_name env \<noteq> []"
    by (simp_all add: final_name_def avi_name_eq)
  with assms show ?thesis
    by (cases "ffmpeg env") (auto simp: write_clip_def fallback_def split: if_splits)
qed

section \<open>Ring buffer: one append\<close>

lemma deque_append_length: "length xs \<le> m \<Longrightarrow> length (deque_append m xs x) \<le> m"
  by (simp add: deque_append_def Let_def)

lemma deque_append_full:
  "length xs = m \<Longrightarrow> 0 < m \<Longrightarrow> deque_append m xs x = tl xs @ [x]"
  by (cases xs) (simp_all add: deque_append_def Let_def)

lemma process_frame_buffer:
  "frame_buffer (snd (process_frame d frm boxes now)) =
     deque_append (fps d * 20) (frame_buffer d) (frm, frame_id d + 1)"
  by (simp add: process_frame_def start_clip_def Let_def)

lemma process_frame_fps: "fps (snd (process_frame d frm boxes now)) = fps d"
  by (simp add: process_frame_def start_clip_def Let_def)

lemma process_frame_frame_id:
  "frame_id (snd (process_frame d frm boxes now)) = frame_id d + 1"
  by (simp add: process_frame_def start_clip_def Let_def)

section \<open>Invariants of the detector\<close>

text \<open>
  What every call of \<^verbatim>\<open>process_frame\<close> and \<^verbatim>\<open>handle_clip\<close> preserves: the ring buffer is within
  its capacity, its sequence numbers increase strictly and lie between 1 and the current
  sequence number, fewer than three timestamps are pending, and the last collected
  sequence number of an open window is not negative.
\<close>

definition det_inv :: "detector \<Rightarrow> bool" where
  "det_inv d =
     (length (frame_buffer d) \<le> fps d * 20 \<and>
      sorted_wrt (<) (map snd (frame_buffer d)) \<and>
      list_all (\<lambda>(frm, fid). 1 \<le> fid \<and> fid \<le> frame_id d) (frame_buffer d) \<and>
      length (pending d) < 3 \<and>
      0 \<le> frame_id d \<and>
      (case active_clip d of None \<Rightarrow> True | Some c \<Rightarrow> 0 \<le> clip_last c))"

lemma det_inv_init: "det_inv (init_detector f)"
  by (simp add: det_inv_def init_detector_def)

lemma sorted_wrt_tl: "sorted_wrt P xs \<Longrightarrow> sorted_wrt P (tl xs)"
  by (cases xs) simp_all

lemma list_all_tl: "list_all P xs \<Longrightarrow> list_all P (tl xs)"
  by (cases xs) simp_all

lemma deque_append_sorted:
  assumes "sorted_wrt (<) (map snd xs)"
    and "list_all (\<lambda>(frm, fid). 1 \<le> fid \<and> fid \<le> (n::int)) xs"
  shows "sorted_wrt (<) (map snd (deque_append m xs (frm, n + 1)))"
proof -
  have "\<forall>y \<in> set (map snd xs). y < n + 1"
    using assms(2) by (fastforce simp: list_all_iff)
  then have "sorted_wrt (<) (map snd (xs @ [(frm, n + 1)]))"
    using assms(1) by (simp add: sorted_wrt_append)
  then show ?thesis
    by (simp add: deque_append_def Let_def sorted_wrt_tl map_tl del: map_append)
qed

lemma deque_append_range:
  assumes "list_all (\<lambda>(frm, fid). 1 \<le> fid \<and> fid \<le> (n::int)) xs" and "0 \<le> n"
  shows "list_all (\<lambda>(frm, fid). 1 \<le> fid \<and> fid \<le> n + 1) (deque_append m xs (frm, n + 1))"
proof -
  have "list_all (\<lambda>(frm, fid). 1 \<le> fid \<and> fid \<le> n + 1) (xs @ [(frm, n + 1)])"
    using assms by (fastforce simp: list_all_iff)
  then show ?thesis
    by (simp add: deque_append_def Let_def list_all_tl del: list_all_append)
qed

lemma process_frame_pending_length:
  "length (pending d) < 3 \<Longrightarrow> length (pending (snd (process_frame d frm boxes now))) < 3"
  by (simp add: process_frame_def start_clip_def Let_def)

lemma process_frame_clip_last:
  "(case active_clip d of None \<Rightarrow> True | Some c \<Rightarrow> 0 \<le> clip_last c) \<Longrightarrow>
   (case active_clip (snd (process_frame d frm boxes now)) of None \<Rightarrow> True | Some c \<Rightarrow> 0 \<le> clip_last c)"
  by (simp add: process_frame_def start_clip_def Let_def)

lemma det_inv_process_frame:
  assumes "det_inv d"
  shows "det_inv (snd (process_frame d frm boxes now))"
  unfolding det_inv_def
  using assms
  by (simp add: det_inv_def process_frame_buffer process_frame_fps process_frame_frame_id
      deque_append_length deque_append_sorted deque_append_range
      process_frame_pending_length process_frame_clip_last)

lemma collect_last_mono: "clip_last c \<le> clip_last (collect buf c)"
proof (induction buf arbitrary: c)
  case Nil
  then show ?case by simp
next
  case (Cons a buf)
  obtain frm fid where a: "a = (frm, fid)" by (cases a)
  show ?case
    using Cons.IH [of "c\<lparr>clip_frames := clip_frames c @ [frm], clip_last := fid\<rparr>"]
      Cons.IH [of c]
    by (auto simp: a)
qed

lemma collect_bounds:
  "clip_start (collect buf c) = clip_start c \<and> clip_end (collect buf c) = clip_end c"
  by (induction buf arbitrary: c) auto

lemma handle_clip_fields:
  "fps (fst (snd (handle_clip env d final))) = fps d \<and>
   frame_id (fst (snd (handle_clip env d final))) = frame_id d \<and>
   frame_buffer (fst (snd (handle_clip env d final))) = frame_buffer d \<and>
   pending (fst (snd (handle_clip env d final))) = pending d \<and>
   global_last (fst (snd (handle_clip env d final))) = global_last d"
  by (simp add: handle_clip_def Let_def split: option.splits prod.splits)

lemma handle_clip_clip_last:
  assumes "case active_clip d of None \<Rightarrow> True | Some c \<Rightarrow> 0 \<le> clip_last c"
  shows "case active_clip (fst (snd (handle_clip env d final))) of
           None \<Rightarrow> True | Some c \<Rightarrow> 0 \<le> clip_last c"
proof (cases "active_clip d")
  case None
  then show ?thesis by (simp add: handle_clip_def)
next
  case (Some c)
  with assms have "0 \<le> clip_last (collect (frame_buffer d) c)"
    using collect_last_mono [of c "frame_buffer d"] by simp
  with Some show ?thesis
    by (simp add: handle_clip_def Let_def split: prod.splits)
qed

lemma det_inv_handle_clip:
  assumes "det_inv d"
  shows "det_inv (fst (snd (handle_clip env d final)))"
  unfolding det_inv_def
  using assms handle_clip_clip_last [of d env final]
  by (simp add: det_inv_def handle_clip_fields)

lemma det_inv_exec_op: "det_inv d \<Longrightarrow> det_inv (exec_op d op)"
  by (cases op) (simp_all add: det_inv_process_frame det_inv_handle_clip)

lemma det_inv_exec_ops: "det_inv d \<Longrightarrow> det_inv (exec_ops d ops)"
  unfolding exec_ops_def
  by (induction ops arbitrary: d) (simp_all add: det_inv_exec_op)

lemma fps_exec_ops: "fps (exec_ops d ops) = fps d"
  unfolding exec_ops_def
proof (induction ops arbitrary: d)
  case Nil
  then show ?case by simp
next
  case (Cons op ops)
  have "fps (exec_op d op) = fps d"
    by (cases op) (simp_all add: process_frame_fps handle_clip_fields)
  with Cons.IH [of "exec_op d op"] show ?case by simp
qed

lemma reachable_inv: "det_inv (exec_ops (init_detector f) ops)"
  by (simp add: det_inv_exec_ops det_inv_init)

section \<open>Ring buffer capacity and eviction order\<close>

text \<open>
  C8.  In every state that a detector reaches from its initial state, the ring buffer holds
  at most \<open>fps * 20\<close> frames and its sequence numbers increase from the head, so the head is
  the oldest frame.  Appending to a full buffer drops the head and puts the new frame at
  the end; appending to a buffer that is not full drops nothing.
\<close>

theorem ring_buffer_bounded_fifo:
  fixes f :: nat and ops :: "det_op list"
  defines "d \<equiv> exec_ops (init_detector f) ops"
  shows "length (frame_buffer d) \<le> f * 20 \<and>
         sorted_wrt (<) (map snd (frame_buffer d)) \<and>
         (0 < f \<and> length (frame_buffer d) = f * 20 \<longrightarrow>
            frame_buffer (snd (process_frame d frm boxes now)) =
              tl (frame_buffer d) @ [(frm, frame_id d + 1)]) \<and>
         (length (frame_buffer d) < f * 20 \<longrightarrow>
            frame_buffer (snd (process_frame d frm boxes now)) =
              frame_buffer d @ [(frm, frame_id d + 1)])"
proof -
  have inv: "det_inv d"
    by (simp add: d_def reachable_inv)
  have rate: "fps d = f"
    by (simp add: d_def fps_exec_ops init_detector_def)
  from inv rate have bound: "length (frame_buffer d) \<le> f * 20"
    and sorted: "sorted_wrt (<) (map snd (frame_buffer d))"
    by (simp_all add: det_inv_def)
  have full: "frame_buffer (snd (process_frame d frm boxes now)) =
      tl (frame_buffer d) @ [(frm, frame_id d + 1)]"
    if "0 < f" "length (frame_buffer d) = f * 20"
    using that rate by (simp add: process_frame_buffer deque_append_full)
  have room: "frame_buffer (snd (process_frame d frm boxes now)) =
      frame_buffer d @ [(frm, frame_id d + 1)]"
    if "length (frame_buffer d) < f * 20"
    using that rate by (simp add: process_frame_buffer deque_append_def)
  from bound sorted full room show ?thesis by blast
qed

definition first_frames :: "nat \<Rightarrow> det_op list" where
  "first_frames n = map (\<lambda>k. ProcessFrame (Image k) [] (real k)) [1..<Suc n]"

lemma exec_first_frames_20:
  "exec_ops (init_detector 1) (first_frames 20) =
     \<lparr>fps = 1, frame_id = 20,
      frame_buffer = map (\<lambda>k. (Image k, int k)) [1..<21],
      pending = [], global_last = 0, active_clip = None\<rparr>"
  by (simp add: first_frames_def exec_ops_def init_detector_def process_frame_def
      deque_append_def Let_def upt_rec)

theorem ring_buffer_bounded_fifo_witness:
  "0 < (1::nat) \<and>
   length (frame_buffer (exec_ops (init_detector 1) (first_frames 20))) = 1 * 20 \<and>
   frame_buffer (snd (process_frame (exec_ops (init_detector 1) (first_frames 20))
                        (Image 21) [] 21)) =
     map (\<lambda>k. (Image k, int k)) [2..<22]"
  using ring_buffer_bounded_fifo [of 1 "first_frames 20" "Image 21" "[]" 21]
  unfolding exec_first_frames_20
  by (simp add: upt_rec)

section \<open>Debounce and cooldown\<close>

text \<open>
  The guard of \<^verbatim>\<open>process_frame\<close>: some detection is above the confidence threshold and the
  last trigger is more than the cooldown ago.
\<close>

definition qualifying :: "detector \<Rightarrow> real list \<Rightarrow> real \<Rightarrow> bool" where
  "qualifying d boxes now =
     (filter (\<lambda>conf. conf > 4 / 10) boxes \<noteq> [] \<and> now - global_last d > GLOBAL_COOLDOWN)"

text \<open>The first two statements of \<^verbatim>\<open>process_frame\<close>, which every call executes.\<close>

definition advance :: "detector \<Rightarrow> frame \<Rightarrow> detector" where
  "advance d frm =
     d\<lparr>frame_id := frame_id d + 1,
       frame_buffer := deque_append (fps d * 20) (frame_buffer d) (frm, frame_id d + 1)\<rparr>"

text \<open>A sequence of calls of \<^verbatim>\<open>process_frame\<close>, with the event list of each call.\<close>

fun run_frames :: "detector \<Rightarrow> (frame \<times> real list \<times> real) list \<Rightarrow> event list list \<times> detector" where
  "run_frames d [] = ([], d)"
| "run_frames d ((frm, boxes, now) # rest) =
     (let (events, d1) = process_frame d frm boxes now;
          (more, d2) = run_frames d1 rest
      in (events # more, d2))"

lemma process_frame_idle:
  "\<not> qualifying d boxes now \<Longrightarrow> process_frame d frm boxes now = ([], advance d frm)"
  by (auto simp: process_frame_def qualifying_def advance_def Let_def)

lemma process_frame_pend:
  "qualifying d boxes now \<Longrightarrow> length (pending d) < 2 \<Longrightarrow>
   process_frame d frm boxes now = ([], (advance d frm)\<lparr>pending := pending d @ [now]\<rparr>)"
  by (simp add: process_frame_def qualifying_def advance_def Let_def)

lemma process_frame_fire:
  "qualifying d boxes now \<Longrightarrow> 2 \<le> length (pending d) \<Longrightarrow>
   process_frame d frm boxes now =
     ([\<lparr>ev_type = ''ACCIDENT'', ev_time = now\<rparr>],
      (advance d frm)\<lparr>pending := [], global_last := now,
        active_clip := Some \<lparr>clip_start = frame_id d + 1 - int (fps d * 5),
                             clip_end = frame_id d + 1 + int (fps d * 5),
                             clip_frames = [], clip_last = 0\<rparr>\<rparr>)"
  by (simp add: process_frame_def qualifying_def advance_def start_clip_def Let_def)

lemma process_frame_events_iff:
  "fst (process_frame d frm boxes now) \<noteq> [] \<longleftrightarrow>
     qualifying d boxes now \<and> 2 \<le> length (pending d)"
  by (simp add: process_frame_def qualifying_def Let_def)

lemma qualifying_global_last:
  "global_last d1 = global_last d \<Longrightarrow> qualifying d1 boxes now = qualifying d boxes now"
  by (simp add: qualifying_def)

lemma run_frames_append:
  "run_frames d (xs @ ys) =
     (fst (run_frames d xs) @ fst (run_frames (snd (run_frames d xs)) ys),
      snd (run_frames (snd (run_frames d xs)) ys))"
  by (induction xs arbitrary: d) (auto simp: Let_def split: prod.splits)

lemma run_frames_Cons:
  "run_frames d ((frm, boxes, now) # rest) =
     (fst (process_frame d frm boxes now) # fst (run_frames (snd (process_frame d frm boxes now)) rest),
      snd (run_frames (snd (process_frame d frm boxes now)) rest))"
  by (simp split: prod.splits)

lemma run_frames_single:
  "fst (run_frames d [(frm, boxes, now)]) = [fst (process_frame d frm boxes now)]"
  by (simp split: prod.splits)

lemma run_frames_quiet:
  assumes "length (pending d) + length (filter (\<lambda>(frm, boxes, now). qualifying d boxes now) ins) < 3"
  shows "fst (run_frames d ins) = replicate (length ins) [] \<and>
         length (pending (snd (run_frames d ins))) =
           length (pending d) + length (filter (\<lambda>(frm, boxes, now). qualifying d boxes now) ins) \<and>
         global_last (snd (run_frames d ins)) = global_last d \<and>
         active_clip (snd (run_frames d ins)) = active_clip d"
  using assms
proof (induction ins arbitrary: d)
  case Nil
  then show ?case by simp
next
  case (Cons x ins)
  obtain frm boxes now where x: "x = (frm, boxes, now)" by (cases x)
  define d1 where "d1 = snd (process_frame d frm boxes now)"
  show ?case
  proof (cases "qualifying d boxes now")
    case True
    with Cons.prems x have short: "length (pending d) < 2" by simp
    have step: "process_frame d frm boxes now = ([], (advance d frm)\<lparr>pending := pending d @ [now]\<rparr>)"
      using True short by (rule process_frame_pend)
    then have d1: "global_last d1 = global_last d" "active_clip d1 = active_clip d"
      "length (pending d1) = length (pending d) + 1"
      by (simp_all add: d1_def advance_def)
    have same: "filter (\<lambda>(frm, boxes, now). qualifying d1 boxes now) ins =
        filter (\<lambda>(frm, boxes, now). qualifying d boxes now) ins"
      using d1(1) by (simp add: qualifying_def)
    have "length (pending d1) + length (filter (\<lambda>(frm, boxes, now). qualifying d1 boxes now) ins) < 3"
      using Cons.prems x True d1(3) same by simp
    from Cons.IH [OF this] show ?thesis
      using step d1 same True x by (simp add: d1_def run_frames_Cons del: run_frames.simps)
  next
    case False
    have step: "process_frame d frm boxes now = ([], advance d frm)"
      using False by (rule process_frame_idle)
    then have d1: "global_last d1 = global_last d" "active_clip d1 = active_clip d"
      "pending d1 = pending d"
      by (simp_all add: d1_def advance_def)
    have same: "filter (\<lambda>(frm, boxes, now). qualifying d1 boxes now) ins =
        filter (\<lambda>(frm, boxes, now). qualifying d boxes now) ins"
      using d1(1) by (simp add: qualifying_def)
    have "length (pending d1) + length (filter (\<lambda>(frm, boxes, now). qualifying d1 boxes now) ins) < 3"
      using Cons.prems x False d1(3) same by simp
    from Cons.IH [OF this] show ?thesis
      using step d1 same False x by (simp add: d1_def run_frames_Cons del: run_frames.simps)
  qed
qed

text \<open>
  C2.  In every state \<open>d\<close> that a detector reaches, a frame that passes the guard appends
  the current time to the pending sequence; when that makes three, the call clears the
  sequence, sets the last trigger time to the current time, returns exactly one ACCIDENT
  event and opens a new window around the frame's sequence number; otherwise it returns no
  event.  A frame that does not pass the guard returns no event and only enters the ring
  buffer.  Hence, starting with nothing pending, the call for the third frame that passes
  the guard returns the ACCIDENT event, and every call before it returns the empty list,
  whatever other frames lie in between.
\<close>

theorem accident_on_third_qualifying_frame:
  fixes f :: nat and ops :: "det_op list"
  defines "d \<equiv> exec_ops (init_detector f) ops"
  shows "(qualifying d boxes now \<longrightarrow>
            process_frame d frm boxes now =
              (if length (pending d) + 1 = 3
               then ([\<lparr>ev_type = ''ACCIDENT'', ev_time = now\<rparr>],
                     (advance d frm)\<lparr>pending := [], global_last := now,
                        active_clip := Some \<lparr>clip_start = frame_id d + 1 - int (fps d * 5),
                                             clip_end = frame_id d + 1 + int (fps d * 5),
                                             clip_frames = [], clip_last = 0\<rparr>\<rparr>)
               else ([], (advance d frm)\<lparr>pending := pending d @ [now]\<rparr>))) \<and>
         (\<not> qualifying d boxes now \<longrightarrow> process_frame d frm boxes now = ([], advance d frm)) \<and>
         (pending d = [] \<and>
          length (filter (\<lambda>(frm, boxes, now). qualifying d boxes now) ins) = 2 \<and>
          qualifying d boxes now \<longrightarrow>
            fst (run_frames d (ins @ [(frm, boxes, now)])) =
              replicate (length ins) [] @ [[\<lparr>ev_type = ''ACCIDENT'', ev_time = now\<rparr>]])"
proof -
  have "det_inv d"
    by (simp add: d_def reachable_inv)
  then have short: "length (pending d) < 3"
    by (simp add: det_inv_def)
  have one: "process_frame d frm boxes now =
      (if length (pending d) + 1 = 3
       then ([\<lparr>ev_type = ''ACCIDENT'', ev_time = now\<rparr>],
             (advance d frm)\<lparr>pending := [], global_last := now,
                active_clip := Some \<lparr>clip_start = frame_id d + 1 - int (fps d * 5),
                                     clip_end = frame_id d + 1 + int (fps d * 5),
                                     clip_frames = [], clip_last = 0\<rparr>\<rparr>)
       else ([], (advance d frm)\<lparr>pending := pending d @ [now]\<rparr>))"
    if "qualifying d boxes now"
  proof (cases "length (pending d) = 2")
    case True
    then show ?thesis using that by (simp add: process_frame_fire)
  next
    case False
    with short have "length (pending d) < 2" by simp
    with False show ?thesis using that by (simp add: process_frame_pend)
  qed
  have three: "fst (run_frames d (ins @ [(frm, boxes, now)])) =
      replicate (length ins) [] @ [[\<lparr>ev_type = ''ACCIDENT'', ev_time = now\<rparr>]]"
    if empty: "pending d = []"
      and two: "length (filter (\<lambda>(frm, boxes, now). qualifying d boxes now) ins) = 2"
      and third: "qualifying d boxes now"
  proof -
    define d2 where "d2 = snd (run_frames d ins)"
    have "length (pending d) + length (filter (\<lambda>(frm, boxes, now). qualifying d boxes now) ins) < 3"
      using empty two by simp
    from run_frames_quiet [OF this]
    have quiet: "fst (run_frames d ins) = replicate (length ins) []"
      and pend: "length (pending d2) = 2" and last: "global_last d2 = global_last d"
      using empty two by (simp_all add: d2_def)
    have "qualifying d2 boxes now"
      using third last by (simp add: qualifying_def)
    then have "fst (process_frame d2 frm boxes now) = [\<lparr>ev_type = ''ACCIDENT'', ev_time = now\<rparr>]"
      using pend by (simp add: process_frame_fire)
    then show ?thesis
      using quiet by (simp add: run_frames_append run_frames_single d2_def del: run_frames.simps)
  qed
  from one three show ?thesis
    by (simp add: process_frame_idle)
qed


theorem accident_on_third_qualifying_frame_witness:
  "qualifying (exec_ops (init_detector 10) []) [9 / 10] 1002 \<and>
   pending (exec_ops (init_detector 10) []) = [] \<and>
   length (filter (\<lambda>(frm, boxes, now). qualifying (exec_ops (init_detector 10) []) boxes now)
             [(Image 1, [9 / 10], 1000), (Image 2, [1 / 10], 1000), (Image 3, [9 / 10], 1001)]) = 2 \<and>
   fst (run_frames (exec_ops (init_detector 10) [])
          ([(Image 1, [9 / 10], 1000), (Image 2, [1 / 10], 1000), (Image 3, [9 / 10], 1001)] @
           [(Image 4, [9 / 10], 1002)])) =
     [[], [], [], [\<lparr>ev_type = ''ACCIDENT'', ev_time = 1002\<rparr>]] \<and>
   process_frame (exec_ops (init_detector 10) []) (Image 4) [9 / 10] 1002 =
     ([], \<lparr>fps = 10, frame_id = 1, frame_buffer = [(Image 4, 1)], pending = [1002],
           global_last = 0, active_clip = None\<rparr>) \<and>
   \<not> qualifying (exec_ops (init_detector 10) []) [1 / 10] 1002 \<and>
   process_frame (exec_ops (init_detector 10) []) (Image 4) [1 / 10] 1002 =
     ([], \<lparr>fps = 10, frame_id = 1, frame_buffer = [(Image 4, 1)], pending = [],
           global_last = 0, active_clip = None\<rparr>)"
  using accident_on_third_qualifying_frame
    [of 10 "[]" "[9 / 10]" 1002 "Image 4"
        "[(Image 1, [9 / 10], 1000), (Image 2, [1 / 10], 1000), (Image 3, [9 / 10], 1001)]"]
    accident_on_third_qualifying_frame [of 10 "[]" "[1 / 10]" 1002 "Image 4" "[]"]
  by (simp add: exec_ops_def init_detector_def qualifying_def GLOBAL_COOLDOWN_def advance_def
      deque_append_def)

section \<open>Clip window: span and finalization\<close>

lemma handle_clip_closed:
  "active_clip d = None \<Longrightarrow> handle_clip env d final = ([], d, [])"
  by (simp add: handle_clip_def)

lemma handle_clip_open:
  assumes "active_clip d = Some c"
  shows "fst (snd (handle_clip env d final)) =
           d\<lparr>active_clip := (if final \<or> frame_id d > clip_end c then None
                               else Some (collect (frame_buffer d) c))\<rparr>"
    and "final \<or> frame_id d > clip_end c \<Longrightarrow>
           snd (snd (handle_clip env d final)) =
             snd (write_clip env (fps d) (collect (frame_buffer d) c))"
    and "\<not> (final \<or> frame_id d > clip_end c) \<Longrightarrow>
           handle_clip env d final = ([], d\<lparr>active_clip := Some (collect (frame_buffer d) c)\<rparr>, [])"
  using assms by (simp_all add: handle_clip_def Let_def collect_bounds split: prod.splits)

lemma handle_clip_final:
  assumes "active_clip d = Some c" and "final \<or> frame_id d > clip_end c"
  shows "handle_clip env d final =
           ((case fst (write_clip env (fps d) (collect (frame_buffer d) c)) of
               None \<Rightarrow> []
             | Some p \<Rightarrow> [\<lparr>cev_type = ''ACCIDENT'', clip_path = p\<rparr>]),
            d\<lparr>active_clip := None\<rparr>,
            snd (write_clip env (fps d) (collect (frame_buffer d) c)))"
proof -
  obtain path fx where w: "write_clip env (fps d) (collect (frame_buffer d) c) = (path, fx)"
    by (cases "write_clip env (fps d) (collect (frame_buffer d) c)")
  show ?thesis
  proof (cases path)
    case None
    with assms w show ?thesis
      by (simp add: handle_clip_def Let_def collect_bounds)
  next
    case (Some p)
    with w have "fst (write_clip env (fps d) (collect (frame_buffer d) c)) = Some p"
      by simp
    then have "p \<noteq> []"
      by (rule write_clip_path)
    with Some assms w show ?thesis
      by (simp add: handle_clip_def Let_def collect_bounds)
  qed
qed

text \<open>
  C3.  A call of \<^verbatim>\<open>process_frame\<close> that returns an event leaves an open window from the
  frame's sequence number minus \<open>fps * 5\<close> to the frame's sequence number plus \<open>fps * 5\<close>,
  with nothing collected.  A call of \<^verbatim>\<open>handle_clip\<close> with an open window closes the window
  exactly when \<open>final\<close> is set or the current sequence number is above the window's end;
  it then hands the collected frames to \<^verbatim>\<open>write_clip\<close> and returns one clip-ready event
  with the path that \<^verbatim>\<open>write_clip\<close> returned (no event when \<^verbatim>\<open>write_clip\<close> returned
  \<^verbatim>\<open>None\<close>), and otherwise only stores what it collected and returns no event.  With no
  open window the call returns no event and changes nothing.
\<close>

theorem clip_window_span_and_finalization:
  "(fst (process_frame d frm boxes now) \<noteq> [] \<longrightarrow>
      frame_id (snd (process_frame d frm boxes now)) = frame_id d + 1 \<and>
      active_clip (snd (process_frame d frm boxes now)) =
        Some \<lparr>clip_start = (frame_id d + 1) - int (fps d * 5),
              clip_end = (frame_id d + 1) + int (fps d * 5),
              clip_frames = [], clip_last = 0\<rparr>) \<and>
   (active_clip d = Some c \<longrightarrow>
      (active_clip (fst (snd (handle_clip env d final))) = None
         \<longleftrightarrow> final \<or> frame_id d > clip_end c) \<and>
      (final \<or> frame_id d > clip_end c \<longrightarrow>
         snd (snd (handle_clip env d final)) =
           snd (write_clip env (fps d) (collect (frame_buffer d) c))) \<and>
      (final \<or> frame_id d > clip_end c \<longrightarrow>
         handle_clip env d final =
           ((case fst (write_clip env (fps d) (collect (frame_buffer d) c)) of
               None \<Rightarrow> []
             | Some p \<Rightarrow> [\<lparr>cev_type = ''ACCIDENT'', clip_path = p\<rparr>]),
            d\<lparr>active_clip := None\<rparr>,
            snd (write_clip env (fps d) (collect (frame_buffer d) c)))) \<and>
      (\<not> (final \<or> frame_id d > clip_end c) \<longrightarrow>
         handle_clip env d final =
           ([], d\<lparr>active_clip := Some (collect (frame_buffer d) c)\<rparr>, []))) \<and>
   (active_clip d = None \<longrightarrow> handle_clip env d final = ([], d, []))"
proof (intro conjI impI)
  assume "fst (process_frame d frm boxes now) \<noteq> []"
  then have "qualifying d boxes now" "2 \<le> length (pending d)"
    by (simp_all add: process_frame_events_iff)
  then show "frame_id (snd (process_frame d frm boxes now)) = frame_id d + 1"
    and "active_clip (snd (process_frame d frm boxes now)) =
      Some \<lparr>clip_start = (frame_id d + 1) - int (fps d * 5),
            clip_end = (frame_id d + 1) + int (fps d * 5),
            clip_frames = [], clip_last = 0\<rparr>"
    by (simp_all add: process_frame_fire advance_def)
next
  assume "active_clip d = Some c"
  then show "(active_clip (fst (snd (handle_clip env d final))) = None)
      = (final \<or> frame_id d > clip_end c)"
    by (simp add: handle_clip_open(1))
next
  assume "active_clip d = Some c" and "final \<or> frame_id d > clip_end c"
  then show "snd (snd (handle_clip env d final)) =
      snd (write_clip env (fps d) (collect (frame_buffer d) c))"
    by (rule handle_clip_open(2))
next
  assume "active_clip d = Some c" and "final \<or> frame_id d > clip_end c"
  then show "handle_clip env d final =
      ((case fst (write_clip env (fps d) (collect (frame_buffer d) c)) of
          None \<Rightarrow> []
        | Some p \<Rightarrow> [\<lparr>cev_type = ''ACCIDENT'', clip_path = p\<rparr>]),
       d\<lparr>active_clip := None\<rparr>,
       snd (write_clip env (fps d) (collect (frame_buffer d) c)))"
    by (rule handle_clip_final)
next
  assume "active_clip d = Some c" and "\<not> (final \<or> frame_id d > clip_end c)"
  then show "handle_clip env d final =
      ([], d\<lparr>active_clip := Some (collect (frame_buffer d) c)\<rparr>, [])"
    by (rule handle_clip_open(3))
next
  assume "active_clip d = None"
  then show "handle_clip env d final = ([], d, [])"
    by (rule handle_clip_closed)
qed


definition frame_99 :: detector where
  "frame_99 = \<lparr>fps = 10, frame_id = 99, frame_buffer = [(Image 99, 99)],
               pending = [1000, 1001], global_last = 0, active_clip = None\<rparr>"

definition frame_151 :: detector where
  "frame_151 = \<lparr>fps = 10, frame_id = 151, frame_buffer = [(Image 150, 150), (Image 151, 151)],
                pending = [], global_last = 1002,
                active_clip = Some \<lparr>clip_start = 50, clip_end = 150,
                                     clip_frames = [Image 149], clip_last = 149\<rparr>\<rparr>"

definition no_ffmpeg :: write_env where
  "no_ffmpeg = \<lparr>t_temp = 1003, t_final = 1003, ffmpeg = FileNotFoundError, temp_exists = True\<rparr>"

lemma frame_99_fires:
  "fst (process_frame frame_99 (Image 100) [9 / 10] 1002) \<noteq> []"
  by (simp add: frame_99_def process_frame_def GLOBAL_COOLDOWN_def Let_def)

lemma frame_151_collect:
  "collect (frame_buffer frame_151)
     \<lparr>clip_start = 50, clip_end = 150, clip_frames = [Image 149], clip_last = 149\<rparr> =
   \<lparr>clip_start = 50, clip_end = 150, clip_frames = [Image 149, Image 150], clip_last = 150\<rparr>"
  by (simp add: frame_151_def)

lemma write_clip_no_ffmpeg:
  "clip_frames clip \<noteq> [] \<Longrightarrow>
   write_clip no_ffmpeg rate clip =
     (Some ''events/ACCIDENT_1003.avi'',
      [WriteAvi ''events/ACCIDENT_1003_temp.avi'' rate,
       RunFfmpeg ''events/ACCIDENT_1003_temp.avi'' ''events/ACCIDENT_1003.mp4'',
       RenameFile ''events/ACCIDENT_1003_temp.avi'' ''events/ACCIDENT_1003.avi''])"
  by (simp add: write_clip_def fallback_def no_ffmpeg_def temp_name_def final_name_def
      avi_name_eq show_int_def show_nat.simps digit_char_def)

theorem clip_window_span_and_finalization_witness:
  "fst (process_frame frame_99 (Image 100) [9 / 10] 1002) \<noteq> [] \<and>
   active_clip (snd (process_frame frame_99 (Image 100) [9 / 10] 1002)) =
     Some \<lparr>clip_start = 50, clip_end = 150, clip_frames = [], clip_last = 0\<rparr> \<and>
   active_clip frame_151 =
     Some \<lparr>clip_start = 50, clip_end = 150, clip_frames = [Image 149], clip_last = 149\<rparr> \<and>
   frame_id frame_151 > 150 \<and>
   active_clip (fst (snd (handle_clip no_ffmpeg frame_151 False))) = None \<and>
   snd (snd (handle_clip no_ffmpeg frame_151 False)) =
     snd (write_clip no_ffmpeg 10
            \<lparr>clip_start = 50, clip_end = 150, clip_frames = [Image 149, Image 150],
             clip_last = 150\<rparr>) \<and>
   handle_clip no_ffmpeg frame_151 False =
     ([\<lparr>cev_type = ''ACCIDENT'', clip_path = ''events/ACCIDENT_1003.avi''\<rparr>],
      frame_151\<lparr>active_clip := None\<rparr>,
      [WriteAvi ''events/ACCIDENT_1003_temp.avi'' 10,
       RunFfmpeg ''events/ACCIDENT_1003_temp.avi'' ''events/ACCIDENT_1003.mp4'',
       RenameFile ''events/ACCIDENT_1003_temp.avi'' ''events/ACCIDENT_1003.avi'']) \<and>
   active_clip frame_99 = None \<and>
   handle_clip no_ffmpeg frame_99 True = ([], frame_99, [])"
proof -
  define c where
    "c = \<lparr>clip_start = 50, clip_end = 150, clip_frames = [Image 149], clip_last = 149\<rparr>"
  note trig = clip_window_span_and_finalization [of frame_99 "Image 100" "[9 / 10]" 1002 c no_ffmpeg True]
  note fin = clip_window_span_and_finalization [of frame_151 "Image 152" "[]" 1020 c no_ffmpeg False]
  have window: "active_clip (snd (process_frame frame_99 (Image 100) [9 / 10] 1002)) =
      Some \<lparr>clip_start = (frame_id frame_99 + 1) - int (fps frame_99 * 5),
            clip_end = (frame_id frame_99 + 1) + int (fps frame_99 * 5),
            clip_frames = [], clip_last = 0\<rparr>"
    using trig frame_99_fires by blast
  have closed: "active_clip frame_99 = None"
    by (simp add: frame_99_def)
  with trig have idle: "handle_clip no_ffmpeg frame_99 True = ([], frame_99, [])"
    by blast
  have "open": "active_clip frame_151 = Some c"
    by (simp add: frame_151_def c_def)
  have late: "False \<or> frame_id frame_151 > clip_end c"
    by (simp add: frame_151_def c_def)
  from fin "open" late have triple: "handle_clip no_ffmpeg frame_151 False =
      ((case fst (write_clip no_ffmpeg (fps frame_151) (collect (frame_buffer frame_151) c)) of
          None \<Rightarrow> []
        | Some p \<Rightarrow> [\<lparr>cev_type = ''ACCIDENT'', clip_path = p\<rparr>]),
       frame_151\<lparr>active_clip := None\<rparr>,
       snd (write_clip no_ffmpeg (fps frame_151) (collect (frame_buffer frame_151) c)))"
    by blast
  have rate: "fps frame_151 = 10" and seq: "frame_id frame_151 > 150"
    by (simp_all add: frame_151_def)
  have result: "handle_clip no_ffmpeg frame_151 False =
      ([\<lparr>cev_type = ''ACCIDENT'', clip_path = ''events/ACCIDENT_1003.avi''\<rparr>],
       frame_151\<lparr>active_clip := None\<rparr>,
       [WriteAvi ''events/ACCIDENT_1003_temp.avi'' 10,
        RunFfmpeg ''events/ACCIDENT_1003_temp.avi'' ''events/ACCIDENT_1003.mp4'',
        RenameFile ''events/ACCIDENT_1003_temp.avi'' ''events/ACCIDENT_1003.avi''])"
    unfolding triple c_def frame_151_collect rate
    by (simp add: write_clip_no_ffmpeg)
  have span: "active_clip (snd (process_frame frame_99 (Image 100) [9 / 10] 1002)) =
      Some \<lparr>clip_start = 50, clip_end = 150, clip_frames = [], clip_last = 0\<rparr>"
    unfolding window by (simp add: frame_99_def)
  from frame_99_fires span "open" seq result closed idle show ?thesis
    by (simp add: c_def write_clip_no_ffmpeg)
qed

section \<open>One window slot and the cooldown gate\<close>

text \<open>
  A camera whose frames reach the detector one second apart, at a configured rate of ten
  frames per second: \<^verbatim>\<open>handle_clip()\<close> follows every \<^verbatim>\<open>process_frame\<close>, as in the session
  loop.  The third frame triggers; the window it opens ends at sequence number 53.
\<close>

definition slow_camera :: "det_op list" where
  "slow_camera =
     [ProcessFrame (Image 1) [9 / 10] 1000, HandleClip no_ffmpeg False,
      ProcessFrame (Image 2) [9 / 10] 1001, HandleClip no_ffmpeg False,
      ProcessFrame (Image 3) [9 / 10] 1002, HandleClip no_ffmpeg False,
      ProcessFrame (Image 4) [9 / 10] 1015, HandleClip no_ffmpeg False,
      ProcessFrame (Image 5) [9 / 10] 1016, HandleClip no_ffmpeg False]"

lemma exec_slow_camera:
  "exec_ops (init_detector 10) slow_camera =
     \<lparr>fps = 10, frame_id = 5,
      frame_buffer = [(Image 1, 1), (Image 2, 2), (Image 3, 3), (Image 4, 4), (Image 5, 5)],
      pending = [1015, 1016], global_last = 1002,
      active_clip = Some \<lparr>clip_start = - 47, clip_end = 53,
                           clip_frames = [Image 1, Image 2, Image 3, Image 4, Image 5],
                           clip_last = 5\<rparr>\<rparr>"
  by (simp add: slow_camera_def exec_ops_def init_detector_def process_frame_def
      start_clip_def handle_clip_def deque_append_def GLOBAL_COOLDOWN_def Let_def)

text \<open>
  C1 as stated fails: fifteen seconds after the trigger the window is still open (the
  detector has seen sequence number 5 of 53), and the sixth frame triggers again.  The new
  window takes the place of the open one, whose collected frames are dropped.
\<close>

theorem trigger_while_window_open:
  "active_clip (exec_ops (init_detector 10) slow_camera) =
     Some \<lparr>clip_start = - 47, clip_end = 53,
           clip_frames = [Image 1, Image 2, Image 3, Image 4, Image 5], clip_last = 5\<rparr> \<and>
   fst (process_frame (exec_ops (init_detector 10) slow_camera) (Image 6) [9 / 10] 1017) =
     [\<lparr>ev_type = ''ACCIDENT'', ev_time = 1017\<rparr>] \<and>
   active_clip (snd (process_frame (exec_ops (init_detector 10) slow_camera)
                       (Image 6) [9 / 10] 1017)) =
     Some \<lparr>clip_start = - 44, clip_end = 56, clip_frames = [], clip_last = 0\<rparr>"
  unfolding exec_slow_camera
  by (simp add: process_frame_def start_clip_def GLOBAL_COOLDOWN_def Let_def)

text \<open>
  C1, amended.  A detector has one window slot, so at most one window is open at any time.
  A frame processed no later than 12 seconds after the last trigger adds nothing to the
  pending sequence, returns no event and leaves the slot as it is.  A call that returns an
  event comes more than 12 seconds after the last trigger, and after it the slot holds the
  new window, whether or not a window was open before.
\<close>

theorem cooldown_gate_and_single_window:
  "(now - global_last d \<le> GLOBAL_COOLDOWN \<longrightarrow>
      fst (process_frame d frm boxes now) = [] \<and>
      pending (snd (process_frame d frm boxes now)) = pending d \<and>
      global_last (snd (process_frame d frm boxes now)) = global_last d \<and>
      active_clip (snd (process_frame d frm boxes now)) = active_clip d) \<and>
   (fst (process_frame d frm boxes now) \<noteq> [] \<longrightarrow>
      now - global_last d > GLOBAL_COOLDOWN \<and>
      global_last (snd (process_frame d frm boxes now)) = now \<and>
      active_clip (snd (process_frame d frm boxes now)) =
        Some \<lparr>clip_start = (frame_id d + 1) - int (fps d * 5),
              clip_end = (frame_id d + 1) + int (fps d * 5),
              clip_frames = [], clip_last = 0\<rparr>)"
proof -
  have gate: "fst (process_frame d frm boxes now) = [] \<and>
      pending (snd (process_frame d frm boxes now)) = pending d \<and>
      global_last (snd (process_frame d frm boxes now)) = global_last d \<and>
      active_clip (snd (process_frame d frm boxes now)) = active_clip d"
    if "now - global_last d \<le> GLOBAL_COOLDOWN"
  proof -
    from that have "\<not> qualifying d boxes now"
      by (simp add: qualifying_def)
    then show ?thesis
      by (simp add: process_frame_idle advance_def)
  qed
  have fire: "now - global_last d > GLOBAL_COOLDOWN \<and>
      global_last (snd (process_frame d frm boxes now)) = now \<and>
      active_clip (snd (process_frame d frm boxes now)) =
        Some \<lparr>clip_start = (frame_id d + 1) - int (fps d * 5),
              clip_end = (frame_id d + 1) + int (fps d * 5),
              clip_frames = [], clip_last = 0\<rparr>"
    if "fst (process_frame d frm boxes now) \<noteq> []"
  proof -
    from that have q: "qualifying d boxes now" and p: "2 \<le> length (pending d)"
      by (simp_all add: process_frame_events_iff)
    from q have "now - global_last d > GLOBAL_COOLDOWN"
      by (simp add: qualifying_def)
    then show ?thesis
      using q p by (simp add: process_frame_fire advance_def)
  qed
  from gate fire show ?thesis by blast
qed

theorem cooldown_gate_and_single_window_witness:
  "(1010 :: real) - global_last (exec_ops (init_detector 10) slow_camera) \<le> GLOBAL_COOLDOWN \<and>
   fst (process_frame (exec_ops (init_detector 10) slow_camera) (Image 6) [9 / 10] 1010) = [] \<and>
   pending (snd (process_frame (exec_ops (init_detector 10) slow_camera) (Image 6) [9 / 10] 1010)) =
     [1015, 1016] \<and>
   fst (process_frame (exec_ops (init_detector 10) slow_camera) (Image 6) [9 / 10] 1017) \<noteq> [] \<and>
   (1017 :: real) - global_last (exec_ops (init_detector 10) slow_camera) > GLOBAL_COOLDOWN \<and>
   global_last (snd (process_frame (exec_ops (init_detector 10) slow_camera)
                       (Image 6) [9 / 10] 1017)) = 1017"
  using cooldown_gate_and_single_window
      [of 1010 "exec_ops (init_detector 10) slow_camera" "Image 6" "[9 / 10]"]
    cooldown_gate_and_single_window
      [of 1017 "exec_ops (init_detector 10) slow_camera" "Image 6" "[9 / 10]"]
  unfolding exec_slow_camera
  by (simp add: process_frame_def start_clip_def GLOBAL_COOLDOWN_def Let_def)

section \<open>Windows that start before the first frame\<close>

lemma collect_sorted_result:
  assumes "sorted_wrt (<) (map snd buf)"
  shows "collect buf c =
           c\<lparr>clip_frames :=
                clip_frames c @
                map fst (filter (\<lambda>(frm, fid). clip_start c \<le> fid \<and> fid \<le> clip_end c \<and>
                                              clip_last c < fid) buf),
              clip_last :=
                last (clip_last c #
                      map snd (filter (\<lambda>(frm, fid). clip_start c \<le> fid \<and> fid \<le> clip_end c \<and>
                                                    clip_last c < fid) buf))\<rparr>"
  using assms
proof (induction buf arbitrary: c)
  case Nil
  then show ?case by simp
next
  case (Cons a buf)
  obtain frm fid where a: "a = (frm, fid)" by (cases a)
  from Cons.prems a have later: "\<forall>y \<in> set buf. fid < snd y" and sorted: "sorted_wrt (<) (map snd buf)"
    by auto
  show ?case
  proof (cases "clip_start c \<le> fid \<and> fid \<le> clip_end c \<and> clip_last c < fid")
    case True
    define c1 where "c1 = c\<lparr>clip_frames := clip_frames c @ [frm], clip_last := fid\<rparr>"
    have same: "filter (\<lambda>(frm, fid). clip_start c1 \<le> fid \<and> fid \<le> clip_end c1 \<and> clip_last c1 < fid) buf =
          filter (\<lambda>(frm, fid). clip_start c \<le> fid \<and> fid \<le> clip_end c \<and> clip_last c < fid) buf"
      using later True by (intro filter_cong) (auto simp: c1_def)
    have "collect (a # buf) c = collect buf c1"
      using True a by (simp add: c1_def)
    also have "\<dots> = c1\<lparr>clip_frames :=
                clip_frames c1 @
                map fst (filter (\<lambda>(frm, fid). clip_start c \<le> fid \<and> fid \<le> clip_end c \<and>
                                              clip_last c < fid) buf),
              clip_last :=
                last (clip_last c1 #
                      map snd (filter (\<lambda>(frm, fid). clip_start c \<le> fid \<and> fid \<le> clip_end c \<and>
                                                    clip_last c < fid) buf))\<rparr>"
      using Cons.IH [OF sorted, of c1] same by simp
    finally show ?thesis
      using True a by (simp add: c1_def)
  next
    case False
    with Cons.IH [OF sorted, of c] a show ?thesis
      by auto
  qed
qed


text \<open>
  C10.  Let \<open>d\<close> be any state that a detector reaches.  A trigger on one of the first
  \<open>fps * 5\<close> frames opens a window whose start is zero or negative.  Whenever the open
  window has such a start, \<^verbatim>\<open>handle_clip\<close> returns a result (it walks the buffer and reads no
  index): the frames it adds are exactly the buffered frames above the last collected
  sequence number and at or below the window's end, in buffer order, and the last collected
  sequence number becomes that of the last frame added; for a window that has collected
  nothing yet, the frames are exactly the buffered frames at or below the window's end.
  The window closes exactly when \<open>final\<close> is set or the current sequence number is above
  the end, as for any other window: the call then hands the collected window to
  \<^verbatim>\<open>write_clip\<close> and returns one clip-ready event with the path that \<^verbatim>\<open>write_clip\<close> returned
  (no event when it returned \<^verbatim>\<open>None\<close>); otherwise it stores the collected window and
  returns no event.
\<close>

theorem early_trigger_window:
  fixes f :: nat and ops :: "det_op list"
  defines "d \<equiv> exec_ops (init_detector f) ops"
  shows "(fst (process_frame d frm boxes now) \<noteq> [] \<and> frame_id d + 1 \<le> int (f * 5) \<longrightarrow>
            (\<exists>c. active_clip (snd (process_frame d frm boxes now)) = Some c \<and>
                 clip_start c \<le> 0 \<and> clip_end c = frame_id d + 1 + int (f * 5) \<and>
                 clip_frames c = [] \<and> clip_last c = 0)) \<and>
         (active_clip d = Some c \<and> clip_start c \<le> 0 \<longrightarrow>
            clip_frames (collect (frame_buffer d) c) =
              clip_frames c @
              map fst (filter (\<lambda>(frm, fid). clip_last c < fid \<and> fid \<le> clip_end c) (frame_buffer d)) \<and>
            (clip_frames c = [] \<and> clip_last c = 0 \<longrightarrow>
               clip_frames (collect (frame_buffer d) c) =
                 map fst (filter (\<lambda>(frm, fid). fid \<le> clip_end c) (frame_buffer d))) \<and>
            fst (snd (handle_clip env d final)) =
              d\<lparr>active_clip := (if final \<or> frame_id d > clip_end c then None
                                  else Some (collect (frame_buffer d) c))\<rparr> \<and>
            (final \<or> frame_id d > clip_end c \<longrightarrow>
               snd (snd (handle_clip env d final)) =
                 snd (write_clip env f (collect (frame_buffer d) c))) \<and>
            collect (frame_buffer d) c =
              c\<lparr>clip_frames :=
                   clip_frames c @
                   map fst (filter (\<lambda>(frm, fid). clip_last c < fid \<and> fid \<le> clip_end c)
                              (frame_buffer d)),
                 clip_last :=
                   last (clip_last c #
                         map snd (filter (\<lambda>(frm, fid). clip_last c < fid \<and> fid \<le> clip_end c)
                                    (frame_buffer d)))\<rparr> \<and>
            handle_clip env d final =
              (if final \<or> frame_id d > clip_end c then
                 ((case fst (write_clip env f (collect (frame_buffer d) c)) of
                     None \<Rightarrow> []
                   | Some p \<Rightarrow> [\<lparr>cev_type = ''ACCIDENT'', clip_path = p\<rparr>]),
                  d\<lparr>active_clip := None\<rparr>,
                  snd (write_clip env f (collect (frame_buffer d) c)))
               else ([], d\<lparr>active_clip := Some (collect (frame_buffer d) c)\<rparr>, [])))"
proof -
  have inv: "det_inv d"
    by (simp add: d_def reachable_inv)
  have rate: "fps d = f"
    by (simp add: d_def fps_exec_ops init_detector_def)
  from inv have sorted: "sorted_wrt (<) (map snd (frame_buffer d))"
    and pos: "\<forall>x \<in> set (frame_buffer d). 1 \<le> snd x"
    by (auto simp: det_inv_def list_all_iff)
  have opens: "fst (process_frame d frm boxes now) \<noteq> [] \<and> frame_id d + 1 \<le> int (f * 5) \<longrightarrow>
      (\<exists>c. active_clip (snd (process_frame d frm boxes now)) = Some c \<and>
           clip_start c \<le> 0 \<and> clip_end c = frame_id d + 1 + int (f * 5) \<and>
           clip_frames c = [] \<and> clip_last c = 0)"
  proof
    assume a: "fst (process_frame d frm boxes now) \<noteq> [] \<and> frame_id d + 1 \<le> int (f * 5)"
    then have "qualifying d boxes now" "2 \<le> length (pending d)"
      by (simp_all add: process_frame_events_iff)
    then show "\<exists>c. active_clip (snd (process_frame d frm boxes now)) = Some c \<and>
        clip_start c \<le> 0 \<and> clip_end c = frame_id d + 1 + int (f * 5) \<and>
        clip_frames c = [] \<and> clip_last c = 0"
      using a rate by (simp add: process_frame_fire advance_def)
  qed
  have window: "clip_frames (collect (frame_buffer d) c) =
        clip_frames c @
        map fst (filter (\<lambda>(frm, fid). clip_last c < fid \<and> fid \<le> clip_end c) (frame_buffer d)) \<and>
      (clip_frames c = [] \<and> clip_last c = 0 \<longrightarrow>
         clip_frames (collect (frame_buffer d) c) =
           map fst (filter (\<lambda>(frm, fid). fid \<le> clip_end c) (frame_buffer d))) \<and>
      fst (snd (handle_clip env d final)) =
        d\<lparr>active_clip := (if final \<or> frame_id d > clip_end c then None
                            else Some (collect (frame_buffer d) c))\<rparr> \<and>
      (final \<or> frame_id d > clip_end c \<longrightarrow>
         snd (snd (handle_clip env d final)) =
           snd (write_clip env f (collect (frame_buffer d) c))) \<and>
      collect (frame_buffer d) c =
        c\<lparr>clip_frames :=
             clip_frames c @
             map fst (filter (\<lambda>(frm, fid). clip_last c < fid \<and> fid \<le> clip_end c)
                        (frame_buffer d)),
           clip_last :=
             last (clip_last c #
                   map snd (filter (\<lambda>(frm, fid). clip_last c < fid \<and> fid \<le> clip_end c)
                              (frame_buffer d)))\<rparr> \<and>
      handle_clip env d final =
        (if final \<or> frame_id d > clip_end c then
           ((case fst (write_clip env f (collect (frame_buffer d) c)) of
               None \<Rightarrow> []
             | Some p \<Rightarrow> [\<lparr>cev_type = ''ACCIDENT'', clip_path = p\<rparr>]),
            d\<lparr>active_clip := None\<rparr>,
            snd (write_clip env f (collect (frame_buffer d) c)))
         else ([], d\<lparr>active_clip := Some (collect (frame_buffer d) c)\<rparr>, []))"
    if "open": "active_clip d = Some c" and early: "clip_start c \<le> 0"
  proof -
    have sel: "filter (\<lambda>(frm, fid). clip_start c \<le> fid \<and> fid \<le> clip_end c \<and> clip_last c < fid)
          (frame_buffer d) =
        filter (\<lambda>(frm, fid). clip_last c < fid \<and> fid \<le> clip_end c) (frame_buffer d)"
      using pos early by (intro filter_cong) auto
    have whole: "collect (frame_buffer d) c =
        c\<lparr>clip_frames :=
             clip_frames c @
             map fst (filter (\<lambda>(frm, fid). clip_last c < fid \<and> fid \<le> clip_end c)
                        (frame_buffer d)),
           clip_last :=
             last (clip_last c #
                   map snd (filter (\<lambda>(frm, fid). clip_last c < fid \<and> fid \<le> clip_end c)
                              (frame_buffer d)))\<rparr>"
      using collect_sorted_result [OF sorted, of c] sel by simp
    have frames: "clip_frames (collect (frame_buffer d) c) =
        clip_frames c @
        map fst (filter (\<lambda>(frm, fid). clip_last c < fid \<and> fid \<le> clip_end c) (frame_buffer d))"
      by (subst whole) simp
    have fresh: "clip_frames c = [] \<and> clip_last c = 0 \<longrightarrow>
        clip_frames (collect (frame_buffer d) c) =
          map fst (filter (\<lambda>(frm, fid). fid \<le> clip_end c) (frame_buffer d))"
    proof
      assume a: "clip_frames c = [] \<and> clip_last c = 0"
      have "filter (\<lambda>(frm, fid). clip_last c < fid \<and> fid \<le> clip_end c) (frame_buffer d) =
          filter (\<lambda>(frm, fid). fid \<le> clip_end c) (frame_buffer d)"
        using pos a by (intro filter_cong) auto
      with frames a show "clip_frames (collect (frame_buffer d) c) =
          map fst (filter (\<lambda>(frm, fid). fid \<le> clip_end c) (frame_buffer d))"
        by simp
    qed
    have slot: "fst (snd (handle_clip env d final)) =
        d\<lparr>active_clip := (if final \<or> frame_id d > clip_end c then None
                            else Some (collect (frame_buffer d) c))\<rparr>"
      using "open" by (rule handle_clip_open(1))
    have effects: "final \<or> frame_id d > clip_end c \<longrightarrow>
        snd (snd (handle_clip env d final)) =
          snd (write_clip env f (collect (frame_buffer d) c))"
      using handle_clip_open(2) [OF "open", of final env] rate by simp
    have triple: "handle_clip env d final =
        (if final \<or> frame_id d > clip_end c then
           ((case fst (write_clip env f (collect (frame_buffer d) c)) of
               None \<Rightarrow> []
             | Some p \<Rightarrow> [\<lparr>cev_type = ''ACCIDENT'', clip_path = p\<rparr>]),
            d\<lparr>active_clip := None\<rparr>,
            snd (write_clip env f (collect (frame_buffer d) c)))
         else ([], d\<lparr>active_clip := Some (collect (frame_buffer d) c)\<rparr>, []))"
    proof (cases "final \<or> frame_id d > clip_end c")
      case True
      from handle_clip_final [OF "open" True, of env] rate True show ?thesis
        by simp
    next
      case False
      from handle_clip_open(3) [OF "open" False, of env] False show ?thesis
        by simp
    qed
    show ?thesis
      by (intro conjI) (fact frames fresh slot effects whole triple)+
  qed
  show ?thesis
  proof (intro conjI)
    show "fst (process_frame d frm boxes now) \<noteq> [] \<and> frame_id d + 1 \<le> int (f * 5) \<longrightarrow>
      (\<exists>c. active_clip (snd (process_frame d frm boxes now)) = Some c \<and>
           clip_start c \<le> 0 \<and> clip_end c = frame_id d + 1 + int (f * 5) \<and>
           clip_frames c = [] \<and> clip_last c = 0)"
      by (fact opens)
  next
    show "active_clip d = Some c \<and> clip_start c \<le> 0 \<longrightarrow>
      clip_frames (collect (frame_buffer d) c) =
        clip_frames c @
        map fst (filter (\<lambda>(frm, fid). clip_last c < fid \<and> fid \<le> clip_end c) (frame_buffer d)) \<and>
      (clip_frames c = [] \<and> clip_last c = 0 \<longrightarrow>
         clip_frames (collect (frame_buffer d) c) =
           map fst (filter (\<lambda>(frm, fid). fid \<le> clip_end c) (frame_buffer d))) \<and>
      fst (snd (handle_clip env d final)) =
        d\<lparr>active_clip := (if final \<or> frame_id d > clip_end c then None
                            else Some (collect (frame_buffer d) c))\<rparr> \<and>
      (final \<or> frame_id d > clip_end c \<longrightarrow>
         snd (snd (handle_clip env d final)) =
           snd (write_clip env f (collect (frame_buffer d) c))) \<and>
      collect (frame_buffer d) c =
        c\<lparr>clip_frames :=
             clip_frames c @
             map fst (filter (\<lambda>(frm, fid). clip_last c < fid \<and> fid \<le> clip_end c)
                        (frame_buffer d)),
           clip_last :=
             last (clip_last c #
                   map snd (filter (\<lambda>(frm, fid). clip_last c < fid \<and> fid \<le> clip_end c)
                              (frame_buffer d)))\<rparr> \<and>
      handle_clip env d final =
        (if final \<or> frame_id d > clip_end c then
           ((case fst (write_clip env f (collect (frame_buffer d) c)) of
               None \<Rightarrow> []
             | Some p \<Rightarrow> [\<lparr>cev_type = ''ACCIDENT'', clip_path = p\<rparr>]),
            d\<lparr>active_clip := None\<rparr>,
            snd (write_clip env f (collect (frame_buffer d) c)))
         else ([], d\<lparr>active_clip := Some (collect (frame_buffer d) c)\<rparr>, []))"
      using window by blast
  qed
qed


definition early_frames :: "det_op list" where
  "early_frames =
     [ProcessFrame (Image 1) [9 / 10] 1000, HandleClip no_ffmpeg False,
      ProcessFrame (Image 2) [9 / 10] 1001, HandleClip no_ffmpeg False]"

lemma exec_early_frames:
  "exec_ops (init_detector 1) early_frames =
     \<lparr>fps = 1, frame_id = 2, frame_buffer = [(Image 1, 1), (Image 2, 2)],
      pending = [1000, 1001], global_last = 0, active_clip = None\<rparr>"
  by (simp add: early_frames_def exec_ops_def init_detector_def process_frame_def
      handle_clip_def deque_append_def GLOBAL_COOLDOWN_def Let_def)

lemma exec_early_trigger:
  "exec_ops (init_detector 1) (early_frames @ [ProcessFrame (Image 3) [9 / 10] 1002]) =
     \<lparr>fps = 1, frame_id = 3, frame_buffer = [(Image 1, 1), (Image 2, 2), (Image 3, 3)],
      pending = [], global_last = 1002,
      active_clip = Some \<lparr>clip_start = - 2, clip_end = 8, clip_frames = [], clip_last = 0\<rparr>\<rparr>"
  by (simp add: early_frames_def exec_ops_def init_detector_def process_frame_def
      start_clip_def handle_clip_def deque_append_def GLOBAL_COOLDOWN_def Let_def)

theorem early_trigger_window_witness:
  "fst (process_frame (exec_ops (init_detector 1) early_frames) (Image 3) [9 / 10] 1002) \<noteq> [] \<and>
   frame_id (exec_ops (init_detector 1) early_frames) + 1 \<le> int (1 * 5) \<and>
   active_clip (snd (process_frame (exec_ops (init_detector 1) early_frames)
                       (Image 3) [9 / 10] 1002)) =
     Some \<lparr>clip_start = - 2, clip_end = 8, clip_frames = [], clip_last = 0\<rparr> \<and>
   active_clip (exec_ops (init_detector 1) (early_frames @ [ProcessFrame (Image 3) [9 / 10] 1002])) =
     Some \<lparr>clip_start = - 2, clip_end = 8, clip_frames = [], clip_last = 0\<rparr> \<and>
   clip_frames
     (collect (frame_buffer (exec_ops (init_detector 1)
                               (early_frames @ [ProcessFrame (Image 3) [9 / 10] 1002])))
        \<lparr>clip_start = - 2, clip_end = 8, clip_frames = [], clip_last = 0\<rparr>) =
     [Image 1, Image 2, Image 3] \<and>
   active_clip (fst (snd (handle_clip no_ffmpeg
       (exec_ops (init_detector 1) (early_frames @ [ProcessFrame (Image 3) [9 / 10] 1002]))
       True))) = None \<and>
   snd (snd (handle_clip no_ffmpeg
       (exec_ops (init_detector 1) (early_frames @ [ProcessFrame (Image 3) [9 / 10] 1002]))
       True)) =
     snd (write_clip no_ffmpeg 1
            \<lparr>clip_start = - 2, clip_end = 8, clip_frames = [Image 1, Image 2, Image 3],
             clip_last = 3\<rparr>) \<and>
   collect (frame_buffer (exec_ops (init_detector 1)
                            (early_frames @ [ProcessFrame (Image 3) [9 / 10] 1002])))
     \<lparr>clip_start = - 2, clip_end = 8, clip_frames = [], clip_last = 0\<rparr> =
     \<lparr>clip_start = - 2, clip_end = 8, clip_frames = [Image 1, Image 2, Image 3],
      clip_last = 3\<rparr> \<and>
   handle_clip no_ffmpeg
       (exec_ops (init_detector 1) (early_frames @ [ProcessFrame (Image 3) [9 / 10] 1002])) True =
     ([\<lparr>cev_type = ''ACCIDENT'', clip_path = ''events/ACCIDENT_1003.avi''\<rparr>],
      (exec_ops (init_detector 1) (early_frames @ [ProcessFrame (Image 3) [9 / 10] 1002]))
        \<lparr>active_clip := None\<rparr>,
      [WriteAvi ''events/ACCIDENT_1003_temp.avi'' 1,
       RunFfmpeg ''events/ACCIDENT_1003_temp.avi'' ''events/ACCIDENT_1003.mp4'',
       RenameFile ''events/ACCIDENT_1003_temp.avi'' ''events/ACCIDENT_1003.avi'']) \<and>
   handle_clip no_ffmpeg
       (exec_ops (init_detector 1) (early_frames @ [ProcessFrame (Image 3) [9 / 10] 1002])) False =
     ([],
      (exec_ops (init_detector 1) (early_frames @ [ProcessFrame (Image 3) [9 / 10] 1002]))
        \<lparr>active_clip :=
           Some \<lparr>clip_start = - 2, clip_end = 8, clip_frames = [Image 1, Image 2, Image 3],
                 clip_last = 3\<rparr>\<rparr>,
      [])"
proof -
  define c0 where "c0 = \<lparr>clip_start = - 2, clip_end = 8, clip_frames = [], clip_last = 0\<rparr>"
  define c3 where
    "c3 = \<lparr>clip_start = - 2, clip_end = 8, clip_frames = [Image 1, Image 2, Image 3],
           clip_last = 3\<rparr>"
  define dA where "dA = exec_ops (init_detector 1) early_frames"
  define dB where
    "dB = exec_ops (init_detector 1) (early_frames @ [ProcessFrame (Image 3) [9 / 10] 1002])"
  have dA: "dA = \<lparr>fps = 1, frame_id = 2, frame_buffer = [(Image 1, 1), (Image 2, 2)],
      pending = [1000, 1001], global_last = 0, active_clip = None\<rparr>"
    unfolding dA_def by (rule exec_early_frames)
  have dB: "dB = \<lparr>fps = 1, frame_id = 3,
      frame_buffer = [(Image 1, 1), (Image 2, 2), (Image 3, 3)],
      pending = [], global_last = 1002, active_clip = Some c0\<rparr>"
    unfolding dB_def c0_def by (rule exec_early_trigger)
  have trig: "fst (process_frame dA (Image 3) [9 / 10] 1002) \<noteq> []"
    unfolding dA by (simp add: process_frame_def GLOBAL_COOLDOWN_def Let_def)
  have early: "frame_id dA + 1 \<le> int (1 * 5)"
    unfolding dA by simp
  from early_trigger_window [of 1 early_frames "Image 3" "[9 / 10]" 1002 c0 no_ffmpeg True] trig early
  have "\<exists>c. active_clip (snd (process_frame dA (Image 3) [9 / 10] 1002)) = Some c \<and>
      clip_start c \<le> 0 \<and> clip_end c = frame_id dA + 1 + int (1 * 5) \<and>
      clip_frames c = [] \<and> clip_last c = 0"
    unfolding dA_def by blast
  have win: "active_clip (snd (process_frame dA (Image 3) [9 / 10] 1002)) = Some c0"
    unfolding dA c0_def
    by (simp add: process_frame_def start_clip_def GLOBAL_COOLDOWN_def Let_def)
  have "open": "active_clip dB = Some c0 \<and> clip_start c0 \<le> 0"
    unfolding dB by (simp add: c0_def)
  note forced = early_trigger_window
    [of 1 "early_frames @ [ProcessFrame (Image 3) [9 / 10] 1002]" "Image 4" "[]" 1003
        c0 no_ffmpeg True, folded dB_def]
  note plain = early_trigger_window
    [of 1 "early_frames @ [ProcessFrame (Image 3) [9 / 10] 1002]" "Image 4" "[]" 1003
        c0 no_ffmpeg False, folded dB_def]
  from forced "open" have coll: "collect (frame_buffer dB) c0 =
      c0\<lparr>clip_frames :=
           clip_frames c0 @
           map fst (filter (\<lambda>(frm, fid). clip_last c0 < fid \<and> fid \<le> clip_end c0)
                      (frame_buffer dB)),
         clip_last :=
           last (clip_last c0 #
                 map snd (filter (\<lambda>(frm, fid). clip_last c0 < fid \<and> fid \<le> clip_end c0)
                            (frame_buffer dB)))\<rparr>"
    by blast
  have coll3: "collect (frame_buffer dB) c0 = c3"
    unfolding coll unfolding dB by (simp add: c0_def c3_def)
  from forced "open" have "handle_clip no_ffmpeg dB True =
      (if True \<or> frame_id dB > clip_end c0 then
         ((case fst (write_clip no_ffmpeg 1 (collect (frame_buffer dB) c0)) of
             None \<Rightarrow> []
           | Some p \<Rightarrow> [\<lparr>cev_type = ''ACCIDENT'', clip_path = p\<rparr>]),
          dB\<lparr>active_clip := None\<rparr>,
          snd (write_clip no_ffmpeg 1 (collect (frame_buffer dB) c0)))
       else ([], dB\<lparr>active_clip := Some (collect (frame_buffer dB) c0)\<rparr>, []))"
    by blast
  then have fin: "handle_clip no_ffmpeg dB True =
      ([\<lparr>cev_type = ''ACCIDENT'', clip_path = ''events/ACCIDENT_1003.avi''\<rparr>],
       dB\<lparr>active_clip := None\<rparr>,
       [WriteAvi ''events/ACCIDENT_1003_temp.avi'' 1,
        RunFfmpeg ''events/ACCIDENT_1003_temp.avi'' ''events/ACCIDENT_1003.mp4'',
        RenameFile ''events/ACCIDENT_1003_temp.avi'' ''events/ACCIDENT_1003.avi''])"
    unfolding coll3 by (simp add: c3_def write_clip_no_ffmpeg)
  from plain "open" have "handle_clip no_ffmpeg dB False =
      (if False \<or> frame_id dB > clip_end c0 then
         ((case fst (write_clip no_ffmpeg 1 (collect (frame_buffer dB) c0)) of
             None \<Rightarrow> []
           | Some p \<Rightarrow> [\<lparr>cev_type = ''ACCIDENT'', clip_path = p\<rparr>]),
          dB\<lparr>active_clip := None\<rparr>,
          snd (write_clip no_ffmpeg 1 (collect (frame_buffer dB) c0)))
       else ([], dB\<lparr>active_clip := Some (collect (frame_buffer dB) c0)\<rparr>, []))"
    by blast
  moreover have "\<not> frame_id dB > clip_end c0"
    unfolding dB by (simp add: c0_def)
  ultimately have stay: "handle_clip no_ffmpeg dB False = ([], dB\<lparr>active_clip := Some c3\<rparr>, [])"
    unfolding coll3 by simp
  have w3: "snd (write_clip no_ffmpeg 1 c3) =
      [WriteAvi ''events/ACCIDENT_1003_temp.avi'' 1,
       RunFfmpeg ''events/ACCIDENT_1003_temp.avi'' ''events/ACCIDENT_1003.mp4'',
       RenameFile ''events/ACCIDENT_1003_temp.avi'' ''events/ACCIDENT_1003.avi'']"
    by (simp add: c3_def write_clip_no_ffmpeg)
  have frames3: "clip_frames c3 = [Image 1, Image 2, Image 3]"
    by (simp add: c3_def)
  from trig early win "open" coll3 fin stay w3 frames3 show ?thesis
    unfolding dA_def [symmetric] dB_def [symmetric] c0_def [symmetric] c3_def [symmetric]
    by simp
qed

section \<open>Clip encoder: the artifact returned\<close>




section \<open>Session coordinator (main.py, \<^verbatim>\<open>track_videos_multithreaded\<close>)\<close>

text \<open>
  The state that the session loop keeps for a camera, and the two dictionaries keyed by the
  camera's video source.  The loop walks \<^verbatim>\<open>accident_states.items()\<close>, so that dictionary is an
  association list in insertion order; \<^verbatim>\<open>detectors\<close> is only looked up by key.
\<close>

record accident_state =
  active :: bool
  accident_id :: "nat option"
  last_event_time :: real
  camera_id :: string
  latitude :: real
  longitude :: real

record session =
  detectors :: "string \<rightharpoonup> detector"
  accident_states :: "(string \<times> accident_state) list"

text \<open>
  What one pass of the loop body reads from the environment: the clock readings in
  program order (\<open>t_now\<close> inside \<^verbatim>\<open>process_frame\<close>, \<open>t_check\<close> for \<^verbatim>\<open>time_since_last\<close>,
  \<open>t_set\<close> for the new \<^verbatim>\<open>last_event_time\<close>, \<open>t_safety\<close> for \<^verbatim>\<open>time_since_detection\<close> of each
  camera), what \<^verbatim>\<open>create_accident_event\<close> returns (\<^verbatim>\<open>None\<close> after an exception), and the
  environment of each \<^verbatim>\<open>write_clip\<close> call.
\<close>

record tick_env =
  t_now :: real
  t_check :: real
  create_result :: "nat option"
  t_set :: real
  clip_env :: write_env
  t_safety :: "string \<Rightarrow> real"
  safety_env :: "string \<Rightarrow> write_env"

text \<open>
  \<^verbatim>\<open>if accident_id:\<close> for an optional record id: false for \<^verbatim>\<open>None\<close> and for 0.  Record ids
  are the numbers that the store assigns; were they strings, the empty string would stand
  where 0 does.
\<close>

definition truthy_id :: "nat option \<Rightarrow> bool" where
  "truthy_id a = (case a of None \<Rightarrow> False | Some n \<Rightarrow> n \<noteq> 0)"

text \<open>
  Step 1, the loop over the events of the frame, entered when the camera is not active.
  The request to the record store is logged whether or not it succeeds.
\<close>

fun create_loop :: "tick_env \<Rightarrow> accident_state \<Rightarrow> event list \<Rightarrow> accident_state \<times> effect list" where
  "create_loop env state [] = (state, [])"
| "create_loop env state (ev # evs) =
     (let time_since_last = t_check env - last_event_time state
      in if ev_type ev = ''ACCIDENT'' \<and> time_since_last > 45 then
           (if truthy_id (create_result env)
            then state\<lparr>accident_id := create_result env, active := True,
                       last_event_time := t_set env\<rparr>
            else state,
            [CreateAccident (camera_id state) (latitude state) (longitude state)])
         else create_loop env state evs)"

text \<open>
  The loop over the clip-ready events, written twice in the source (step 2 and the forced
  branch of step 3) with the same body: mark the record TRIMMED, start the upload process,
  reset the state, and stop at the first event that has a path.
\<close>

fun trim_loop :: "nat \<Rightarrow> accident_state \<Rightarrow> clip_event list \<Rightarrow> accident_state \<times> effect list" where
  "trim_loop aid state [] = (state, [])"
| "trim_loop aid state (ev # evs) =
     (if clip_path ev = [] then trim_loop aid state evs
      else (state\<lparr>active := False, accident_id := None\<rparr>,
            [UpdateAccident aid [(''status'', ''TRIMMED''), (''clip_path'', clip_path ev)],
             StartUpload (clip_path ev) aid]))"

text \<open>The format \<^verbatim>\<open>:.0f\<close>: the nearest integer, ties to the even one.\<close>

definition round_half_even :: "real \<Rightarrow> int" where
  "round_half_even x =
     (let n = \<lfloor>x\<rfloor>; r = x - of_int n
      in if r < 1 / 2 then n else if r > 1 / 2 then n + 1 else if even n then n else n + 1)"

definition fmt_0f :: "real \<Rightarrow> string" where
  "fmt_0f x =
     (if x < 0 then CHR ''-'' # show_nat (nat (round_half_even (- x)))
      else show_nat (nat (round_half_even x)))"

text \<open>Step 3 for one camera: the body of the loop over all cameras.\<close>

definition safety_check ::
  "tick_env \<Rightarrow> string \<Rightarrow> accident_state \<Rightarrow> (string \<rightharpoonup> detector) \<Rightarrow>
     accident_state \<times> (string \<rightharpoonup> detector) \<times> effect list" where
  "safety_check env check_cam check_state dets =
     (case accident_id check_state of
        None \<Rightarrow> (check_state, dets, [])
      | Some aid \<Rightarrow>
          if active check_state \<and> aid \<noteq> 0 then
            (let time_since_detection = t_safety env check_cam - last_event_time check_state
             in if time_since_detection > 45 then
                  (case dets check_cam of
                     None \<Rightarrow> (check_state, dets, [])
                   | Some check_detector \<Rightarrow>
                       (let (forced_clips, det', fx) =
                              handle_clip (safety_env env check_cam) check_detector True;
                            dets' = dets(check_cam \<mapsto> det')
                        in if forced_clips \<noteq> [] then
                             (let (state', fx') = trim_loop aid check_state forced_clips
                              in (state', dets', fx @ fx'))
                           else
                             (check_state\<lparr>active := False, accident_id := None\<rparr>, dets',
                              fx @ [UpdateAccident aid
                                      [(''status'', ''FAILED''),
                                       (''clip_path'',
                                        ''No clip generated after '' @
                                        fmt_0f time_since_detection @ ''s'')]])))
                else (check_state, dets, []))
          else (check_state, dets, []))"

fun safety_loop ::
  "tick_env \<Rightarrow> (string \<times> accident_state) list \<Rightarrow> (string \<rightharpoonup> detector) \<Rightarrow>
     (string \<times> accident_state) list \<times> (string \<rightharpoonup> detector) \<times> effect list" where
  "safety_loop env [] dets = ([], dets, [])"
| "safety_loop env ((check_cam, check_state) # rest) dets =
     (let (state', dets1, fx1) = safety_check env check_cam check_state dets;
          (rest', dets2, fx2) = safety_loop env rest dets1
      in ((check_cam, state') # rest', dets2, fx1 @ fx2))"

definition safety_net :: "tick_env \<Rightarrow> session \<Rightarrow> session \<times> effect list" where
  "safety_net env s =
     (let (states, dets, fx) = safety_loop env (accident_states s) (detectors s)
      in (\<lparr>detectors = dets, accident_states = states\<rparr>, fx))"

text \<open>
  Steps 1 and 2 for the camera whose frame was received.  \<^verbatim>\<open>None\<close> is the early
  \<^verbatim>\<open>continue\<close> for a source without detector or state.
\<close>

definition frame_steps ::
  "tick_env \<Rightarrow> session \<Rightarrow> string \<Rightarrow> frame \<Rightarrow> real list \<Rightarrow> (session \<times> effect list) option" where
  "frame_steps env s cam_id frm boxes =
     (case detectors s cam_id of
        None \<Rightarrow> None
      | Some detector \<Rightarrow>
          (case map_of (accident_states s) cam_id of
             None \<Rightarrow> None
           | Some state \<Rightarrow>
               (let (events, det1) = process_frame detector frm boxes (t_now env);
                    (state1, fx1) = (if \<not> active state then create_loop env state events
                                     else (state, []));
                    (ready_clips, det2, fx2) = handle_clip (clip_env env) det1 False;
                    (state2, fx3) =
                      (case accident_id state1 of
                         None \<Rightarrow> (state1, [])
                       | Some aid \<Rightarrow>
                           if active state1 \<and> aid \<noteq> 0 then trim_loop aid state1 ready_clips
                           else (state1, []))
                in Some (\<lparr>detectors = (detectors s)(cam_id \<mapsto> det2),
                          accident_states = AList.update cam_id state2 (accident_states s)\<rparr>,
                         fx1 @ fx2 @ fx3))))"

text \<open>One pass of the loop body for a received frame: steps 1 and 2, then step 3.\<close>

definition tick ::
  "tick_env \<Rightarrow> session \<Rightarrow> string \<Rightarrow> frame \<Rightarrow> real list \<Rightarrow> session \<times> effect list" where
  "tick env s cam_id frm boxes =
     (case frame_steps env s cam_id frm boxes of
        None \<Rightarrow> (s, [])
      | Some (s1, fx) \<Rightarrow>
          (let (s2, fx4) = safety_net env s1 in (s2, fx @ fx4)))"

text \<open>A run of the loop: the frames received, each with its environment.\<close>

fun run_ticks ::
  "session \<Rightarrow> (tick_env \<times> string \<times> frame \<times> real list) list \<Rightarrow> session \<times> effect list list" where
  "run_ticks s [] = (s, [])"
| "run_ticks s ((env, cam_id, frm, boxes) # rest) =
     (let (s1, fx) = tick env s cam_id frm boxes;
          (s2, more) = run_ticks s1 rest
      in (s2, fx # more))"

section \<open>Upload process (\<^verbatim>\<open>upload_clip_async\<close>)\<close>

text \<open>
  How the \<^verbatim>\<open>try\<close> block ends: an exception when the file is opened, in the storage upload or
  in the URL lookup, or the public URL.
\<close>

datatype upload_result = OpenError | StorageError | UrlError | Uploaded string

record upload_env =
  file_exists :: bool
  storage :: upload_result
  remove_ok :: bool

definition upload_clip_async :: "upload_env \<Rightarrow> string \<Rightarrow> nat \<Rightarrow> effect list" where
  "upload_clip_async env path aid =
     (if \<not> file_exists env then []
      else
        (let failed = [UpdateAccident aid [(''status'', ''UPLOAD_FAILED''), (''clip_path'', path)]]
         in case storage env of
              OpenError \<Rightarrow> failed
            | StorageError \<Rightarrow> StorageUpload path # failed
            | UrlError \<Rightarrow> StorageUpload path # failed
            | Uploaded url \<Rightarrow>
                [StorageUpload path,
                 UpdateAccident aid [(''video_url'', url), (''status'', ''UPLOADED'')]] @
                (if remove_ok env then [RemoveFile path] else [])))"

section \<open>The safety net\<close>

lemma handle_clip_events:
  "fst (handle_clip env d final) = [] \<or>
   (\<exists>p. p \<noteq> [] \<and> fst (handle_clip env d final) = [\<lparr>cev_type = ''ACCIDENT'', clip_path = p\<rparr>])"
  by (simp add: handle_clip_def Let_def split: option.splits prod.splits)

lemma handle_clip_nothing:
  "active_clip d = None \<or>
   (\<exists>c. active_clip d = Some c \<and> clip_frames (collect (frame_buffer d) c) = []) \<Longrightarrow>
   fst (handle_clip env d final) = []"
  by (auto simp: handle_clip_def write_clip_def Let_def split: option.splits prod.splits)

text \<open>What step 3 does for a camera that is stuck.\<close>

definition forced_effects :: "tick_env \<Rightarrow> string \<Rightarrow> accident_state \<Rightarrow> nat \<Rightarrow> detector \<Rightarrow> effect list" where
  "forced_effects env cam st aid det =
     snd (snd (handle_clip (safety_env env cam) det True)) @
     (case fst (handle_clip (safety_env env cam) det True) of
        [] \<Rightarrow> [UpdateAccident aid
                 [(''status'', ''FAILED''),
                  (''clip_path'',
                   ''No clip generated after '' @
                   fmt_0f (t_safety env cam - last_event_time st) @ ''s'')]]
      | ev # evs \<Rightarrow> [UpdateAccident aid [(''status'', ''TRIMMED''), (''clip_path'', clip_path ev)],
                     StartUpload (clip_path ev) aid])"

lemma safety_check_stuck:
  assumes "active st" and "accident_id st = Some aid" and "aid \<noteq> 0"
    and "t_safety env cam - last_event_time st > 45" and "dets cam = Some det"
  shows "safety_check env cam st dets =
           (st\<lparr>active := False, accident_id := None\<rparr>,
            dets(cam \<mapsto> fst (snd (handle_clip (safety_env env cam) det True))),
            forced_effects env cam st aid det)"
proof -
  obtain r d' fx where h: "handle_clip (safety_env env cam) det True = (r, d', fx)"
    by (cases "handle_clip (safety_env env cam) det True")
  from handle_clip_events [of "safety_env env cam" det True] h
  have "r = [] \<or> (\<exists>p. p \<noteq> [] \<and> r = [\<lparr>cev_type = ''ACCIDENT'', clip_path = p\<rparr>])"
    by simp
  then show ?thesis
  proof
    assume "r = []"
    then show ?thesis
      using assms h by (simp add: safety_check_def forced_effects_def)
  next
    assume "\<exists>p. p \<noteq> [] \<and> r = [\<lparr>cev_type = ''ACCIDENT'', clip_path = p\<rparr>]"
    then obtain p where "p \<noteq> []" and "r = [\<lparr>cev_type = ''ACCIDENT'', clip_path = p\<rparr>]"
      by blast
    then show ?thesis
      using assms h by (simp add: safety_check_def forced_effects_def)
  qed
qed

lemma safety_check_local:
  "ds cam = dets cam \<Longrightarrow>
   fst (safety_check env cam st ds) = fst (safety_check env cam st dets) \<and>
   snd (snd (safety_check env cam st ds)) = snd (snd (safety_check env cam st dets)) \<and>
   fst (snd (safety_check env cam st ds)) cam = fst (snd (safety_check env cam st dets)) cam"
  by (simp add: safety_check_def Let_def split: option.splits prod.splits)

lemma safety_check_others:
  "k \<noteq> cam \<Longrightarrow> fst (snd (safety_check env cam st dets)) k = dets k"
  by (simp add: safety_check_def Let_def split: option.splits prod.splits)

lemma safety_loop_Cons:
  "safety_loop env ((cam, st) # rest) dets =
     ((cam, fst (safety_check env cam st dets)) #
        fst (safety_loop env rest (fst (snd (safety_check env cam st dets)))),
      fst (snd (safety_loop env rest (fst (snd (safety_check env cam st dets))))),
      snd (snd (safety_check env cam st dets)) @
        snd (snd (safety_loop env rest (fst (snd (safety_check env cam st dets))))))"
  by (simp split: prod.splits)

lemma safety_loop_keys: "map fst (fst (safety_loop env sts dets)) = map fst sts"
  by (induction sts arbitrary: dets) (auto simp: safety_loop_Cons simp del: safety_loop.simps(2))

lemma safety_loop_skips:
  "k \<notin> fst ` set sts \<Longrightarrow> fst (snd (safety_loop env sts dets)) k = dets k"
  by (induction sts arbitrary: dets)
    (auto simp: safety_loop_Cons safety_check_others simp del: safety_loop.simps(2))

lemma safety_loop_entry:
  assumes "distinct (map fst sts)" and "(cam, st) \<in> set sts"
  shows "map_of (fst (safety_loop env sts dets)) cam = Some (fst (safety_check env cam st dets)) \<and>
         fst (snd (safety_loop env sts dets)) cam = fst (snd (safety_check env cam st dets)) cam \<and>
         (\<exists>pre post. snd (snd (safety_loop env sts dets)) =
            pre @ snd (snd (safety_check env cam st dets)) @ post)"
  using assms
proof (induction sts arbitrary: dets)
  case Nil
  then show ?case by simp
next
  case (Cons a sts)
  obtain k s0 where a: "a = (k, s0)" by (cases a)
  define dets1 where "dets1 = fst (snd (safety_check env k s0 dets))"
  from Cons.prems a have fresh: "k \<notin> fst ` set sts" and dist: "distinct (map fst sts)"
    by auto
  show ?case
  proof (cases "(cam, st) = (k, s0)")
    case True
    then have eq: "cam = k" "st = s0" by auto
    have "fst (snd (safety_loop env sts dets1)) k = dets1 k"
      using fresh by (rule safety_loop_skips)
    moreover have "\<exists>pre post. snd (snd (safety_check env k s0 dets)) @
        snd (snd (safety_loop env sts dets1)) = pre @ snd (snd (safety_check env k s0 dets)) @ post"
      by (rule exI [of _ "[]"]) simp
    ultimately show ?thesis
      by (simp add: a eq safety_loop_Cons dets1_def del: safety_loop.simps(2))
  next
    case False
    with Cons.prems a have mem: "(cam, st) \<in> set sts" by auto
    with fresh have ne: "cam \<noteq> k" by force
    have same: "dets1 cam = dets cam"
      using ne by (simp add: dets1_def safety_check_others)
    note loc = safety_check_local [of dets1 cam dets env st, OF same]
    from Cons.IH [OF dist mem, of dets1]
    have IH1: "map_of (fst (safety_loop env sts dets1)) cam = Some (fst (safety_check env cam st dets))"
      and IH2: "fst (snd (safety_loop env sts dets1)) cam = fst (snd (safety_check env cam st dets)) cam"
      and IH3: "\<exists>pre post. snd (snd (safety_loop env sts dets1)) =
          pre @ snd (snd (safety_check env cam st dets)) @ post"
      using loc by simp_all
    from IH3 obtain pre post where
      "snd (snd (safety_loop env sts dets1)) = pre @ snd (snd (safety_check env cam st dets)) @ post"
      by blast
    then have "snd (snd (safety_check env k s0 dets)) @ snd (snd (safety_loop env sts dets1)) =
        (snd (snd (safety_check env k s0 dets)) @ pre) @ snd (snd (safety_check env cam st dets)) @ post"
      by simp
    then have "\<exists>pre post. snd (snd (safety_check env k s0 dets)) @ snd (snd (safety_loop env sts dets1)) =
        pre @ snd (snd (safety_check env cam st dets)) @ post"
      by blast
    with IH1 IH2 ne show ?thesis
      by (simp add: a safety_loop_Cons dets1_def del: safety_loop.simps(2))
  qed
qed

lemma frame_steps_others:
  assumes "frame_steps env s cam_id frm boxes = Some (s1, fx)" and "cam \<noteq> cam_id"
  shows "map_of (accident_states s1) cam = map_of (accident_states s) cam \<and>
         detectors s1 cam = detectors s cam"
  using assms
  by (auto simp: frame_steps_def Let_def update_conv' split: option.splits prod.splits)

lemma frame_steps_keys:
  assumes "frame_steps env s cam_id frm boxes = Some (s1, fx)"
  shows "map fst (accident_states s1) = map fst (accident_states s)"
proof -
  from assms obtain st where "map_of (accident_states s) cam_id = Some st"
    by (auto simp: frame_steps_def split: option.splits)
  then have "(cam_id, st) \<in> set (accident_states s)"
    by (rule map_of_SomeD)
  then have "cam_id \<in> fst ` set (accident_states s)"
    by force
  then have "map fst (AList.update cam_id v (accident_states s)) = map fst (accident_states s)" for v
    by (simp add: update_keys)
  with assms show ?thesis
    by (auto simp: frame_steps_def Let_def split: option.splits prod.splits)
qed


lemma tick_after_frame_steps:
  "frame_steps env s0 cam_id frm boxes = Some (s, fx0) \<Longrightarrow>
   tick env s0 cam_id frm boxes =
     (\<lparr>detectors = fst (snd (safety_loop env (accident_states s) (detectors s))),
       accident_states = fst (safety_loop env (accident_states s) (detectors s))\<rparr>,
      fx0 @ snd (snd (safety_loop env (accident_states s) (detectors s))))"
  by (simp add: tick_def safety_net_def split: prod.splits)

text \<open>
  C5.  Take any pass of the loop body for a received frame of a known camera, and let \<open>s\<close>
  be the session after steps 1 and 2.  Every camera \<open>cam\<close> of \<open>s\<close> (the one whose frame was
  received or any other, whose state and detector steps 1 and 2 have not touched) that is
  active with a record id and for which more than 45 seconds have passed since its
  \<^verbatim>\<open>last_event_time\<close> gets \<^verbatim>\<open>handle_clip(final=True)\<close> on its detector.  When that returns a
  clip, the pass logs the update of the record to TRIMMED with the clip path followed by the
  start of the upload process; when it returns nothing, the pass logs the update of the
  record to FAILED with the message \<^verbatim>\<open>No clip generated after ..s\<close>.  In both cases the
  camera's state ends inactive with no record id.  A detector that has no open window, or
  whose window has no frame to collect, returns nothing.
\<close>

theorem stuck_accident_is_forced:
  assumes "frame_steps env s0 cam_id frm boxes = Some (s, fx0)"
    and "distinct (map fst (accident_states s0))"
    and "(cam, st) \<in> set (accident_states s)"
    and "detectors s cam = Some det"
    and "active st" and "accident_id st = Some aid" and "aid \<noteq> 0"
    and "t_safety env cam - last_event_time st > 45"
  shows "map_of (accident_states (fst (tick env s0 cam_id frm boxes))) cam =
           Some (st\<lparr>active := False, accident_id := None\<rparr>) \<and>
         detectors (fst (tick env s0 cam_id frm boxes)) cam =
           Some (fst (snd (handle_clip (safety_env env cam) det True))) \<and>
         (fst (handle_clip (safety_env env cam) det True) = [] \<longrightarrow>
            (\<exists>pre post. snd (tick env s0 cam_id frm boxes) =
               pre @ snd (snd (handle_clip (safety_env env cam) det True)) @
               [UpdateAccident aid
                  [(''status'', ''FAILED''),
                   (''clip_path'',
                    ''No clip generated after '' @
                    fmt_0f (t_safety env cam - last_event_time st) @ ''s'')]] @ post)) \<and>
         (\<forall>ev evs. fst (handle_clip (safety_env env cam) det True) = ev # evs \<longrightarrow>
            (\<exists>pre post. snd (tick env s0 cam_id frm boxes) =
               pre @ snd (snd (handle_clip (safety_env env cam) det True)) @
               [UpdateAccident aid [(''status'', ''TRIMMED''), (''clip_path'', clip_path ev)],
                StartUpload (clip_path ev) aid] @ post)) \<and>
         (active_clip det = None \<or>
          (\<exists>c. active_clip det = Some c \<and> clip_frames (collect (frame_buffer det) c) = []) \<longrightarrow>
            fst (handle_clip (safety_env env cam) det True) = []) \<and>
         (cam \<noteq> cam_id \<longrightarrow>
            map_of (accident_states s0) cam = Some st \<and> detectors s0 cam = Some det)"
proof -
  have keys: "map fst (accident_states s) = map fst (accident_states s0)"
    using assms(1) by (rule frame_steps_keys)
  with assms(2) have dist: "distinct (map fst (accident_states s))"
    by simp
  note entry = safety_loop_entry [OF dist assms(3), of env "detectors s"]
  have stuck: "safety_check env cam st (detectors s) =
      (st\<lparr>active := False, accident_id := None\<rparr>,
       (detectors s)(cam \<mapsto> fst (snd (handle_clip (safety_env env cam) det True))),
       forced_effects env cam st aid det)"
    using assms(5-8) assms(4) by (rule safety_check_stuck)
  note tick_eq = tick_after_frame_steps [OF assms(1)]
  have state: "map_of (accident_states (fst (tick env s0 cam_id frm boxes))) cam =
      Some (st\<lparr>active := False, accident_id := None\<rparr>)"
    using entry stuck by (simp add: tick_eq)
  have det: "detectors (fst (tick env s0 cam_id frm boxes)) cam =
      Some (fst (snd (handle_clip (safety_env env cam) det True)))"
    using entry stuck by (simp add: tick_eq)
  from entry stuck obtain pre post where
    "snd (snd (safety_loop env (accident_states s) (detectors s))) =
       pre @ forced_effects env cam st aid det @ post"
    by auto
  then have log: "snd (tick env s0 cam_id frm boxes) =
      (fx0 @ pre) @ forced_effects env cam st aid det @ post"
    by (simp add: tick_eq)
  have failed: "\<exists>pre post. snd (tick env s0 cam_id frm boxes) =
      pre @ snd (snd (handle_clip (safety_env env cam) det True)) @
      [UpdateAccident aid
         [(''status'', ''FAILED''),
          (''clip_path'',
           ''No clip generated after '' @
           fmt_0f (t_safety env cam - last_event_time st) @ ''s'')]] @ post"
    if "fst (handle_clip (safety_env env cam) det True) = []"
  proof -
    from that log have "snd (tick env s0 cam_id frm boxes) =
      (fx0 @ pre) @ snd (snd (handle_clip (safety_env env cam) det True)) @
      [UpdateAccident aid
         [(''status'', ''FAILED''),
          (''clip_path'',
           ''No clip generated after '' @
           fmt_0f (t_safety env cam - last_event_time st) @ ''s'')]] @ post"
      by (simp add: forced_effects_def)
    then show ?thesis by blast
  qed
  have trimmed: "\<exists>pre post. snd (tick env s0 cam_id frm boxes) =
      pre @ snd (snd (handle_clip (safety_env env cam) det True)) @
      [UpdateAccident aid [(''status'', ''TRIMMED''), (''clip_path'', clip_path ev)],
       StartUpload (clip_path ev) aid] @ post"
    if "fst (handle_clip (safety_env env cam) det True) = ev # evs" for ev evs
  proof -
    from that log have "snd (tick env s0 cam_id frm boxes) =
      (fx0 @ pre) @ snd (snd (handle_clip (safety_env env cam) det True)) @
      [UpdateAccident aid [(''status'', ''TRIMMED''), (''clip_path'', clip_path ev)],
       StartUpload (clip_path ev) aid] @ post"
      by (simp add: forced_effects_def)
    then show ?thesis by blast
  qed
  have other: "map_of (accident_states s0) cam = Some st \<and> detectors s0 cam = Some det"
    if "cam \<noteq> cam_id"
  proof -
    from dist assms(3) have "map_of (accident_states s) cam = Some st"
      by (simp add: map_of_eq_Some_iff)
    with frame_steps_others [OF assms(1) that] assms(4) show ?thesis
      by simp
  qed
  have failed': "fst (handle_clip (safety_env env cam) det True) = [] \<longrightarrow>
      (\<exists>pre post. snd (tick env s0 cam_id frm boxes) =
         pre @ snd (snd (handle_clip (safety_env env cam) det True)) @
         [UpdateAccident aid
            [(''status'', ''FAILED''),
             (''clip_path'',
              ''No clip generated after '' @
              fmt_0f (t_safety env cam - last_event_time st) @ ''s'')]] @ post)"
    using failed by (rule impI)
  have trimmed': "\<forall>ev evs. fst (handle_clip (safety_env env cam) det True) = ev # evs \<longrightarrow>
      (\<exists>pre post. snd (tick env s0 cam_id frm boxes) =
         pre @ snd (snd (handle_clip (safety_env env cam) det True)) @
         [UpdateAccident aid [(''status'', ''TRIMMED''), (''clip_path'', clip_path ev)],
          StartUpload (clip_path ev) aid] @ post)"
    using trimmed by (intro allI impI)
  have nothing': "active_clip det = None \<or>
      (\<exists>c. active_clip det = Some c \<and> clip_frames (collect (frame_buffer det) c) = []) \<longrightarrow>
      fst (handle_clip (safety_env env cam) det True) = []"
  proof
    assume "active_clip det = None \<or>
      (\<exists>c. active_clip det = Some c \<and> clip_frames (collect (frame_buffer det) c) = [])"
    then show "fst (handle_clip (safety_env env cam) det True) = []"
      by (rule handle_clip_nothing)
  qed
  have other': "cam \<noteq> cam_id \<longrightarrow>
      map_of (accident_states s0) cam = Some st \<and> detectors s0 cam = Some det"
    using other by blast
  show ?thesis
    by (intro conjI) (fact state det failed' trimmed' nothing' other')+
qed


text \<open>
  Two cameras.  The frame comes from the first; the second has been active for 46.3
  seconds.  In \<open>stalled_session\<close> its detector has no open window; in \<open>late_session\<close> its
  detector has an open window and three buffered frames.
\<close>

definition idle_state :: accident_state where
  "idle_state = \<lparr>active = False, accident_id = None, last_event_time = 0,
                 camera_id = ''CAM001'', latitude = 11, longitude = 75\<rparr>"

definition stuck_state :: accident_state where
  "stuck_state = \<lparr>active = True, accident_id = Some 7, last_event_time = 1000,
                  camera_id = ''CAM002'', latitude = 12, longitude = 76\<rparr>"

definition open_detector :: detector where
  "open_detector =
     \<lparr>fps = 1, frame_id = 3, frame_buffer = [(Image 1, 1), (Image 2, 2), (Image 3, 3)],
      pending = [], global_last = 1000,
      active_clip = Some \<lparr>clip_start = - 2, clip_end = 8, clip_frames = [], clip_last = 0\<rparr>\<rparr>"

definition stalled_session :: session where
  "stalled_session =
     \<lparr>detectors = [''a.mp4'' \<mapsto> init_detector 10, ''b.mp4'' \<mapsto> init_detector 10],
      accident_states = [(''a.mp4'', idle_state), (''b.mp4'', stuck_state)]\<rparr>"

definition late_session :: session where
  "late_session =
     \<lparr>detectors = [''a.mp4'' \<mapsto> init_detector 10, ''b.mp4'' \<mapsto> open_detector],
      accident_states = [(''a.mp4'', idle_state), (''b.mp4'', stuck_state)]\<rparr>"

definition late_env :: tick_env where
  "late_env =
     \<lparr>t_now = 1046, t_check = 1046, create_result = None, t_set = 1046,
      clip_env = no_ffmpeg, t_safety = (\<lambda>cam. 10463 / 10), safety_env = (\<lambda>cam. no_ffmpeg)\<rparr>"

lemma frame_steps_stalled:
  "frame_steps late_env stalled_session ''a.mp4'' (Image 1) [] =
     Some (\<lparr>detectors = [''a.mp4'' \<mapsto> (init_detector 10)\<lparr>frame_id := 1, frame_buffer := [(Image 1, 1)]\<rparr>,
                          ''b.mp4'' \<mapsto> init_detector 10],
            accident_states = [(''a.mp4'', idle_state), (''b.mp4'', stuck_state)]\<rparr>, [])"
  by (simp add: frame_steps_def stalled_session_def late_env_def idle_state_def
      init_detector_def process_frame_def handle_clip_def deque_append_def Let_def
      fun_upd_twist)

lemma frame_steps_late:
  "frame_steps late_env late_session ''a.mp4'' (Image 1) [] =
     Some (\<lparr>detectors = [''a.mp4'' \<mapsto> (init_detector 10)\<lparr>frame_id := 1, frame_buffer := [(Image 1, 1)]\<rparr>,
                          ''b.mp4'' \<mapsto> open_detector],
            accident_states = [(''a.mp4'', idle_state), (''b.mp4'', stuck_state)]\<rparr>, [])"
  by (simp add: frame_steps_def late_session_def late_env_def idle_state_def
      init_detector_def process_frame_def handle_clip_def deque_append_def Let_def
      fun_upd_twist)

lemma tick_stalled:
  "snd (tick late_env stalled_session ''a.mp4'' (Image 1) []) =
     [UpdateAccident 7 [(''status'', ''FAILED''), (''clip_path'', ''No clip generated after 46s'')]]"
  unfolding tick_after_frame_steps [OF frame_steps_stalled]
  by (simp add: safety_check_def late_env_def
      stuck_state_def idle_state_def init_detector_def handle_clip_def fmt_0f_def
      round_half_even_def show_nat.simps digit_char_def)

lemma tick_late:
  "snd (tick late_env late_session ''a.mp4'' (Image 1) []) =
     [WriteAvi ''events/ACCIDENT_1003_temp.avi'' 1,
      RunFfmpeg ''events/ACCIDENT_1003_temp.avi'' ''events/ACCIDENT_1003.mp4'',
      RenameFile ''events/ACCIDENT_1003_temp.avi'' ''events/ACCIDENT_1003.avi'',
      UpdateAccident 7 [(''status'', ''TRIMMED''), (''clip_path'', ''events/ACCIDENT_1003.avi'')],
      StartUpload ''events/ACCIDENT_1003.avi'' 7]"
  unfolding tick_after_frame_steps [OF frame_steps_late]
  by (simp add: safety_check_def late_env_def
      stuck_state_def idle_state_def open_detector_def init_detector_def handle_clip_def
      write_clip_def fallback_def no_ffmpeg_def temp_name_def final_name_def avi_name_eq
      show_int_def show_nat.simps digit_char_def Let_def)

theorem stuck_accident_is_forced_witness:
  "distinct (map fst (accident_states stalled_session)) \<and>
   active stuck_state \<and> accident_id stuck_state = Some 7 \<and>
   t_safety late_env ''b.mp4'' - last_event_time stuck_state > 45 \<and>
   map_of (accident_states stalled_session) ''b.mp4'' = Some stuck_state \<and>
   detectors stalled_session ''b.mp4'' = Some (init_detector 10) \<and>
   active_clip (init_detector 10) = None \<and>
   map_of (accident_states (fst (tick late_env stalled_session ''a.mp4'' (Image 1) []))) ''b.mp4'' =
     Some (stuck_state\<lparr>active := False, accident_id := None\<rparr>) \<and>
   snd (tick late_env stalled_session ''a.mp4'' (Image 1) []) =
     [UpdateAccident 7 [(''status'', ''FAILED''), (''clip_path'', ''No clip generated after 46s'')]] \<and>
   detectors late_session ''b.mp4'' = Some open_detector \<and>
   fst (handle_clip no_ffmpeg open_detector True) =
     [\<lparr>cev_type = ''ACCIDENT'', clip_path = ''events/ACCIDENT_1003.avi''\<rparr>] \<and>
   map_of (accident_states (fst (tick late_env late_session ''a.mp4'' (Image 1) []))) ''b.mp4'' =
     Some (stuck_state\<lparr>active := False, accident_id := None\<rparr>) \<and>
   active_clip (the (detectors (fst (tick late_env late_session ''a.mp4'' (Image 1) [])) ''b.mp4'')) = None \<and>
   snd (tick late_env late_session ''a.mp4'' (Image 1) []) =
     [WriteAvi ''events/ACCIDENT_1003_temp.avi'' 1,
      RunFfmpeg ''events/ACCIDENT_1003_temp.avi'' ''events/ACCIDENT_1003.mp4'',
      RenameFile ''events/ACCIDENT_1003_temp.avi'' ''events/ACCIDENT_1003.avi'',
      UpdateAccident 7 [(''status'', ''TRIMMED''), (''clip_path'', ''events/ACCIDENT_1003.avi'')],
      StartUpload ''events/ACCIDENT_1003.avi'' 7]"
  using stuck_accident_is_forced
      [OF frame_steps_stalled, of "''b.mp4''" stuck_state "init_detector 10" 7]
    stuck_accident_is_forced
      [OF frame_steps_late, of "''b.mp4''" stuck_state open_detector 7]
  unfolding tick_stalled tick_late
  by (simp add: stalled_session_def late_session_def late_env_def stuck_state_def
      init_detector_def open_detector_def handle_clip_def write_clip_def fallback_def
      no_ffmpeg_def avi_name_eq show_int_def show_nat.simps digit_char_def Let_def)

section \<open>Record-level cooldown\<close>

text \<open>The requests to create a record, among the effects.\<close>

fun is_create :: "effect \<Rightarrow> bool" where
  "is_create (CreateAccident cam lat lon) = True"
| "is_create e = False"

lemma write_clip_no_create: "\<forall>e \<in> set (snd (write_clip env rate clip)). \<not> is_create e"
  by (cases "ffmpeg env") (simp_all add: write_clip_def fallback_def)

lemma handle_clip_no_create: "\<forall>e \<in> set (snd (snd (handle_clip env d final))). \<not> is_create e"
proof (cases "active_clip d")
  case None
  then show ?thesis by (simp add: handle_clip_def)
next
  case (Some c)
  show ?thesis
  proof (cases "final \<or> frame_id d > clip_end c")
    case True
    with handle_clip_open(2) [OF Some, of final env] write_clip_no_create show ?thesis
      by simp
  next
    case False
    with handle_clip_open(3) [OF Some, of final env] show ?thesis
      by simp
  qed
qed

lemma trim_loop_result:
  "(\<forall>e \<in> set (snd (trim_loop aid st evs)). \<not> is_create e) \<and>
   last_event_time (fst (trim_loop aid st evs)) = last_event_time st"
  by (induction evs) simp_all

lemma create_loop_result:
  "((\<exists>e \<in> set (snd (create_loop env st evs)). is_create e) \<longrightarrow>
      evs \<noteq> [] \<and> t_check env - last_event_time st > 45) \<and>
   (last_event_time (fst (create_loop env st evs)) = last_event_time st \<or>
    t_check env - last_event_time st > 45 \<and>
    last_event_time (fst (create_loop env st evs)) = t_set env)"
  by (induction evs) (simp_all add: Let_def)

lemma safety_check_result:
  "(\<forall>e \<in> set (snd (snd (safety_check env cam st dets))). \<not> is_create e) \<and>
   last_event_time (fst (safety_check env cam st dets)) = last_event_time st"
proof -
  have "\<forall>e \<in> set (snd (snd (handle_clip (safety_env env cam) d True))). \<not> is_create e" for d
    by (rule handle_clip_no_create)
  then show ?thesis
    using trim_loop_result
    by (auto simp: safety_check_def Let_def split: option.splits prod.splits)
      (metis fst_conv snd_conv)+
qed


lemma safety_loop_no_create:
  "\<forall>e \<in> set (snd (snd (safety_loop env sts dets))). \<not> is_create e"
proof (induction sts arbitrary: dets)
  case Nil
  then show ?case by simp
next
  case (Cons a sts)
  obtain k s0 where a: "a = (k, s0)" by (cases a)
  from safety_check_result [of env k s0 dets] Cons.IH show ?case
    by (auto simp: a safety_loop_Cons simp del: safety_loop.simps(2))
qed

lemma safety_loop_time:
  "map_of sts cam = Some st \<Longrightarrow>
   \<exists>st'. map_of (fst (safety_loop env sts dets)) cam = Some st' \<and>
         last_event_time st' = last_event_time st"
proof (induction sts arbitrary: dets)
  case Nil
  then show ?case by simp
next
  case (Cons a sts)
  obtain k s0 where a: "a = (k, s0)" by (cases a)
  show ?case
  proof (cases "k = cam")
    case True
    with Cons.prems a have "s0 = st" by simp
    with True safety_check_result [of env k s0 dets] show ?thesis
      by (simp add: a safety_loop_Cons del: safety_loop.simps(2))
  next
    case False
    with Cons.prems a have "map_of sts cam = Some st" by simp
    from Cons.IH [OF this] False show ?thesis
      by (simp add: a safety_loop_Cons del: safety_loop.simps(2))
  qed
qed

text \<open>Steps 1 and 2 written out for a known camera.\<close>

lemma frame_steps_known:
  assumes "detectors s cam_id = Some det" and "map_of (accident_states s) cam_id = Some st"
  shows "\<exists>s1 fx. frame_steps env s cam_id frm boxes = Some (s1, fx) \<and>
           (\<exists>st1. accident_states s1 = AList.update cam_id st1 (accident_states s) \<and>
              (last_event_time st1 = last_event_time st \<or>
               \<not> active st \<and> t_check env - last_event_time st > 45 \<and>
               last_event_time st1 = t_set env)) \<and>
           ((\<exists>e \<in> set fx. is_create e) \<longrightarrow>
              \<not> active st \<and> t_check env - last_event_time st > 45 \<and>
              fst (process_frame det frm boxes (t_now env)) \<noteq> [])"
proof -
  obtain events det1 where pf: "process_frame det frm boxes (t_now env) = (events, det1)"
    by (cases "process_frame det frm boxes (t_now env)")
  obtain state1 fx1 where s1: "(if \<not> active st then create_loop env st events else (st, [])) = (state1, fx1)"
    by (cases "if \<not> active st then create_loop env st events else (st, [])")
  obtain ready det2 fx2 where hc: "handle_clip (clip_env env) det1 False = (ready, det2, fx2)"
    by (cases "handle_clip (clip_env env) det1 False")
  obtain state2 fx3 where s2:
    "(case accident_id state1 of None \<Rightarrow> (state1, [])
      | Some aid \<Rightarrow> if active state1 \<and> aid \<noteq> 0 then trim_loop aid state1 ready
                    else (state1, [])) = (state2, fx3)"
    by (cases "case accident_id state1 of None \<Rightarrow> (state1, [])
      | Some aid \<Rightarrow> if active state1 \<and> aid \<noteq> 0 then trim_loop aid state1 ready
                    else (state1, [])")
  have steps: "frame_steps env s cam_id frm boxes =
      Some (\<lparr>detectors = (detectors s)(cam_id \<mapsto> det2),
             accident_states = AList.update cam_id state2 (accident_states s)\<rparr>,
            fx1 @ fx2 @ fx3)"
    using assms pf s1 hc s2 by (simp add: frame_steps_def)
  have fx2: "\<forall>e \<in> set fx2. \<not> is_create e"
    using handle_clip_no_create [of "clip_env env" det1 False] hc by simp
  have time2: "last_event_time state2 = last_event_time state1" and fx3: "\<forall>e \<in> set fx3. \<not> is_create e"
    using s2 trim_loop_result [of _ state1 ready]
    by (auto split: option.splits if_splits) (metis fst_conv snd_conv)+
  have time1: "last_event_time state1 = last_event_time st \<or>
      \<not> active st \<and> t_check env - last_event_time st > 45 \<and> last_event_time state1 = t_set env"
    using s1 create_loop_result [of env st events]
    by (cases "active st") (auto simp: fst_def)
  have fx1: "\<not> active st \<and> t_check env - last_event_time st > 45 \<and> events \<noteq> []"
    if "\<exists>e \<in> set fx1. is_create e"
    using that s1 create_loop_result [of env st events]
    by (cases "active st") auto
  have "(\<exists>e \<in> set (fx1 @ fx2 @ fx3). is_create e) \<longrightarrow>
      \<not> active st \<and> t_check env - last_event_time st > 45 \<and>
      fst (process_frame det frm boxes (t_now env)) \<noteq> []"
    using fx1 fx2 fx3 pf by auto
  with steps time1 time2 show ?thesis
    by auto
qed

lemma tick_known:
  assumes "detectors s cam_id = Some det" and "map_of (accident_states s) cam_id = Some st"
  shows "(\<exists>st'. map_of (accident_states (fst (tick env s cam_id frm boxes))) cam_id = Some st' \<and>
            (last_event_time st' = last_event_time st \<or>
             \<not> active st \<and> t_check env - last_event_time st > 45 \<and>
             last_event_time st' = t_set env)) \<and>
         ((\<exists>e \<in> set (snd (tick env s cam_id frm boxes)). is_create e) \<longrightarrow>
            \<not> active st \<and> t_check env - last_event_time st > 45 \<and>
            fst (process_frame det frm boxes (t_now env)) \<noteq> [])"
proof -
  from frame_steps_known [OF assms, of env frm boxes] obtain s1 fx st1 where
    steps: "frame_steps env s cam_id frm boxes = Some (s1, fx)"
    and upd: "accident_states s1 = AList.update cam_id st1 (accident_states s)"
    and time: "last_event_time st1 = last_event_time st \<or>
       \<not> active st \<and> t_check env - last_event_time st > 45 \<and> last_event_time st1 = t_set env"
    and req: "(\<exists>e \<in> set fx. is_create e) \<longrightarrow>
       \<not> active st \<and> t_check env - last_event_time st > 45 \<and>
       fst (process_frame det frm boxes (t_now env)) \<noteq> []"
    by blast
  from upd have "map_of (accident_states s1) cam_id = Some st1"
    by (simp add: update_conv')
  from safety_loop_time [OF this, of env "detectors s1"] obtain st' where
    "map_of (fst (safety_loop env (accident_states s1) (detectors s1))) cam_id = Some st'"
    and "last_event_time st' = last_event_time st1"
    by blast
  with time have first: "\<exists>st'. map_of (accident_states (fst (tick env s cam_id frm boxes))) cam_id = Some st' \<and>
      (last_event_time st' = last_event_time st \<or>
       \<not> active st \<and> t_check env - last_event_time st > 45 \<and> last_event_time st' = t_set env)"
    by (auto simp: tick_after_frame_steps [OF steps])
  from req safety_loop_no_create [of env "accident_states s1" "detectors s1"]
  have "(\<exists>e \<in> set (snd (tick env s cam_id frm boxes)). is_create e) \<longrightarrow>
      \<not> active st \<and> t_check env - last_event_time st > 45 \<and>
      fst (process_frame det frm boxes (t_now env)) \<noteq> []"
    by (auto simp: tick_after_frame_steps [OF steps])
  with first show ?thesis by blast
qed

lemma tick_other:
  assumes "map_of (accident_states s) cam = Some st" and "cam \<noteq> cam_id"
  shows "\<exists>st'. map_of (accident_states (fst (tick env s cam_id frm boxes))) cam = Some st' \<and>
           last_event_time st' = last_event_time st"
proof (cases "frame_steps env s cam_id frm boxes")
  case None
  with assms show ?thesis by (simp add: tick_def)
next
  case (Some r)
  obtain s1 fx where r: "r = (s1, fx)" by (cases r)
  from frame_steps_others [OF Some [unfolded r] assms(2)] assms(1)
  have "map_of (accident_states s1) cam = Some st" by simp
  from safety_loop_time [OF this, of env "detectors s1"] show ?thesis
    by (simp add: tick_after_frame_steps [OF Some [unfolded r]])
qed

lemma tick_unknown:
  "detectors s cam_id = None \<or> map_of (accident_states s) cam_id = None \<Longrightarrow>
   tick env s cam_id frm boxes = (s, [])"
  by (auto simp: tick_def frame_steps_def split: option.splits)


lemma run_ticks_Cons:
  "run_ticks s ((env, cam_id, frm, boxes) # rest) =
     (fst (run_ticks (fst (tick env s cam_id frm boxes)) rest),
      snd (tick env s cam_id frm boxes) # snd (run_ticks (fst (tick env s cam_id frm boxes)) rest))"
  by (simp split: prod.splits)

lemma tick_within_cooldown:
  assumes "map_of (accident_states s) cam = Some st"
    and "cam_id = cam \<longrightarrow> t_check env - last_event_time st \<le> 45"
  shows "(cam_id = cam \<longrightarrow> (\<forall>e \<in> set (snd (tick env s cam_id frm boxes)). \<not> is_create e)) \<and>
         (\<exists>st'. map_of (accident_states (fst (tick env s cam_id frm boxes))) cam = Some st' \<and>
               last_event_time st' = last_event_time st)"
proof (cases "cam_id = cam")
  case False
  with tick_other [OF assms(1), of cam_id env frm boxes] show ?thesis
    by auto
next
  case True
  with assms(2) have close: "t_check env - last_event_time st \<le> 45" by simp
  show ?thesis
  proof (cases "detectors s cam_id")
    case None
    then have "tick env s cam_id frm boxes = (s, [])"
      by (simp add: tick_unknown)
    with assms(1) True show ?thesis by simp
  next
    case (Some det)
    from tick_known [OF Some, of st env frm boxes] assms(1) True close show ?thesis
      by auto
  qed
qed

lemma run_within_cooldown:
  assumes "map_of (accident_states s) cam = Some st"
    and "\<forall>x \<in> set ticks. fst (snd x) = cam \<longrightarrow> t_check (fst x) - last_event_time st \<le> 45"
  shows "list_all2 (\<lambda>x fx. fst (snd x) = cam \<longrightarrow> (\<forall>e \<in> set fx. \<not> is_create e))
           ticks (snd (run_ticks s ticks)) \<and>
         (\<exists>st'. map_of (accident_states (fst (run_ticks s ticks))) cam = Some st' \<and>
               last_event_time st' = last_event_time st)"
  using assms
proof (induction ticks arbitrary: s st)
  case Nil
  then show ?case by simp
next
  case (Cons x ticks)
  obtain env cam_id frm boxes where x: "x = (env, cam_id, frm, boxes)"
    by (cases x)
  from Cons.prems(2) x have here: "cam_id = cam \<longrightarrow> t_check env - last_event_time st \<le> 45"
    by simp
  from tick_within_cooldown [OF Cons.prems(1) here, of frm boxes] obtain st1 where
    quiet: "cam_id = cam \<longrightarrow> (\<forall>e \<in> set (snd (tick env s cam_id frm boxes)). \<not> is_create e)"
    and st1: "map_of (accident_states (fst (tick env s cam_id frm boxes))) cam = Some st1"
    and time: "last_event_time st1 = last_event_time st"
    by blast
  from Cons.prems(2) time
  have "\<forall>x \<in> set ticks. fst (snd x) = cam \<longrightarrow> t_check (fst x) - last_event_time st1 \<le> 45"
    by simp
  from Cons.IH [OF st1 this] quiet time show ?case
    by (simp add: x run_ticks_Cons del: run_ticks.simps(2))
qed

lemma process_frame_event_type:
  "\<forall>ev \<in> set (fst (process_frame d frm boxes now)). ev_type ev = ''ACCIDENT''"
  by (simp add: process_frame_def Let_def)

lemma create_loop_accident:
  assumes "evs \<noteq> []" and "\<forall>ev \<in> set evs. ev_type ev = ''ACCIDENT''"
    and "t_check env - last_event_time st > 45"
  shows "create_loop env st evs =
           (if truthy_id (create_result env)
            then st\<lparr>accident_id := create_result env, active := True,
                    last_event_time := t_set env\<rparr>
            else st,
            [CreateAccident (camera_id st) (latitude st) (longitude st)])"
  using assms by (cases evs) simp_all

lemma tick_creates:
  assumes "map_of (accident_states s) cam = Some st" and "detectors s cam = Some det"
    and "\<not> active st" and "fst (process_frame det frm boxes (t_now env)) \<noteq> []"
    and "t_check env - last_event_time st > 45" and "truthy_id (create_result env)"
  shows "CreateAccident (camera_id st) (latitude st) (longitude st)
           \<in> set (snd (tick env s cam frm boxes)) \<and>
         (\<exists>st'. map_of (accident_states (fst (tick env s cam frm boxes))) cam = Some st' \<and>
               last_event_time st' = t_set env)"
proof -
  obtain events det1 where pf: "process_frame det frm boxes (t_now env) = (events, det1)"
    by (cases "process_frame det frm boxes (t_now env)")
  with assms(4) process_frame_event_type [of det frm boxes "t_now env"]
  have "events \<noteq> []" and "\<forall>ev \<in> set events. ev_type ev = ''ACCIDENT''"
    by simp_all
  from create_loop_accident [OF this assms(5)] assms(6)
  have cl: "create_loop env st events =
      (st\<lparr>accident_id := create_result env, active := True, last_event_time := t_set env\<rparr>,
       [CreateAccident (camera_id st) (latitude st) (longitude st)])"
    by simp
  define state1 where
    "state1 = st\<lparr>accident_id := create_result env, active := True, last_event_time := t_set env\<rparr>"
  obtain ready det2 fx2 where hc: "handle_clip (clip_env env) det1 False = (ready, det2, fx2)"
    by (cases "handle_clip (clip_env env) det1 False")
  obtain state2 fx3 where s2:
    "(case accident_id state1 of None \<Rightarrow> (state1, [])
      | Some aid \<Rightarrow> if active state1 \<and> aid \<noteq> 0 then trim_loop aid state1 ready
                    else (state1, [])) = (state2, fx3)"
    by (cases "case accident_id state1 of None \<Rightarrow> (state1, [])
      | Some aid \<Rightarrow> if active state1 \<and> aid \<noteq> 0 then trim_loop aid state1 ready
                    else (state1, [])")
  have time2: "last_event_time state2 = t_set env"
  proof -
    have "last_event_time state2 = last_event_time state1"
      using s2 trim_loop_result [of _ state1 ready]
      by (auto split: option.splits if_splits) (metis fst_conv)+
    then show ?thesis by (simp add: state1_def)
  qed
  have steps: "frame_steps env s cam frm boxes =
      Some (\<lparr>detectors = (detectors s)(cam \<mapsto> det2),
             accident_states = AList.update cam state2 (accident_states s)\<rparr>,
            [CreateAccident (camera_id st) (latitude st) (longitude st)] @ fx2 @ fx3)"
  proof -
    have cl': "create_loop env st events =
        (state1, [CreateAccident (camera_id st) (latitude st) (longitude st)])"
      by (simp add: cl state1_def)
    show ?thesis
      using assms(1-3) pf cl' hc s2 by (simp add: frame_steps_def)
  qed
  have "map_of (AList.update cam state2 (accident_states s)) cam = Some state2"
    by (simp add: update_conv')
  from safety_loop_time [OF this, of env "(detectors s)(cam \<mapsto> det2)"] time2
  show ?thesis
    by (auto simp: tick_after_frame_steps [OF steps])
qed

text \<open>
  C6.  Let \<open>st\<close> be the state of camera \<open>cam\<close> in any session.  A pass of the loop body for a
  frame of \<open>cam\<close> asks the record store to create a record only if the camera is not active
  and more than 45 seconds have passed since its \<^verbatim>\<open>last_event_time\<close>.  In any run of passes
  in which every reading of \<^verbatim>\<open>time_since_last\<close> for \<open>cam\<close> is at most 45 seconds, no pass
  asks for a record for \<open>cam\<close>, and \<^verbatim>\<open>last_event_time\<close> stays as it is.  A pass that creates a
  record sets \<^verbatim>\<open>last_event_time\<close> to the time of the creation; so after one creation, no
  trigger of the next 45 seconds creates a second record.
\<close>

theorem record_creation_cooldown:
  assumes "map_of (accident_states s) cam = Some st"
  shows "((\<exists>e \<in> set (snd (tick env s cam frm boxes)). is_create e) \<longrightarrow>
            \<not> active st \<and> t_check env - last_event_time st > 45) \<and>
         ((\<forall>x \<in> set ticks. fst (snd x) = cam \<longrightarrow> t_check (fst x) - last_event_time st \<le> 45) \<longrightarrow>
            list_all2 (\<lambda>x fx. fst (snd x) = cam \<longrightarrow> (\<forall>e \<in> set fx. \<not> is_create e))
              ticks (snd (run_ticks s ticks)) \<and>
            (\<exists>st'. map_of (accident_states (fst (run_ticks s ticks))) cam = Some st' \<and>
                  last_event_time st' = last_event_time st)) \<and>
         (detectors s cam = Some det \<and> \<not> active st \<and>
          fst (process_frame det frm boxes (t_now env)) \<noteq> [] \<and>
          t_check env - last_event_time st > 45 \<and> truthy_id (create_result env) \<longrightarrow>
            CreateAccident (camera_id st) (latitude st) (longitude st)
              \<in> set (snd (tick env s cam frm boxes)) \<and>
            (\<exists>st'. map_of (accident_states (fst (tick env s cam frm boxes))) cam = Some st' \<and>
                  last_event_time st' = t_set env))"
proof (intro conjI impI)
  assume req: "\<exists>e \<in> set (snd (tick env s cam frm boxes)). is_create e"
  have known: "\<exists>d. detectors s cam = Some d"
  proof (rule ccontr)
    assume "\<not> (\<exists>d. detectors s cam = Some d)"
    then have "tick env s cam frm boxes = (s, [])"
      by (simp add: tick_unknown)
    with req show False by simp
  qed
  then obtain d where "detectors s cam = Some d" by blast
  from tick_known [OF this assms, of env frm boxes] req
  show "\<not> active st" and "t_check env - last_event_time st > 45"
    by blast+
next
  assume "\<forall>x \<in> set ticks. fst (snd x) = cam \<longrightarrow> t_check (fst x) - last_event_time st \<le> 45"
  from run_within_cooldown [OF assms this]
  show "list_all2 (\<lambda>x fx. fst (snd x) = cam \<longrightarrow> (\<forall>e \<in> set fx. \<not> is_create e))
          ticks (snd (run_ticks s ticks))"
    and "\<exists>st'. map_of (accident_states (fst (run_ticks s ticks))) cam = Some st' \<and>
          last_event_time st' = last_event_time st"
    by blast+
next
  assume a: "detectors s cam = Some det \<and> \<not> active st \<and>
    fst (process_frame det frm boxes (t_now env)) \<noteq> [] \<and>
    t_check env - last_event_time st > 45 \<and> truthy_id (create_result env)"
  then have "CreateAccident (camera_id st) (latitude st) (longitude st)
      \<in> set (snd (tick env s cam frm boxes)) \<and>
    (\<exists>st'. map_of (accident_states (fst (tick env s cam frm boxes))) cam = Some st' \<and>
          last_event_time st' = t_set env)"
    using tick_creates [OF assms, of det frm boxes env] by blast
  then show "CreateAccident (camera_id st) (latitude st) (longitude st)
      \<in> set (snd (tick env s cam frm boxes))"
    and "\<exists>st'. map_of (accident_states (fst (tick env s cam frm boxes))) cam = Some st' \<and>
          last_event_time st' = t_set env"
    by blast+
qed


text \<open>
  One camera at one frame per second.  In \<open>first_session\<close> two timestamps are pending and
  the third qualifying frame arrives at 1002; the record is created at 1002.5.  In
  \<open>second_session\<close> the clip of that record is done, the state is reset, and the detector
  triggers again at 1017, which is 14.5 seconds after the creation.
\<close>

definition armed_detector :: detector where
  "armed_detector =
     \<lparr>fps = 1, frame_id = 2, frame_buffer = [(Image 1, 1), (Image 2, 2)],
      pending = [1000, 1001], global_last = 0, active_clip = None\<rparr>"

definition rearmed_detector :: detector where
  "rearmed_detector =
     \<lparr>fps = 1, frame_id = 11, frame_buffer = [(Image 10, 10), (Image 11, 11)],
      pending = [1015, 1016], global_last = 1002, active_clip = None\<rparr>"

definition first_session :: session where
  "first_session =
     \<lparr>detectors = [''a.mp4'' \<mapsto> armed_detector],
      accident_states = [(''a.mp4'', idle_state)]\<rparr>"

definition second_session :: session where
  "second_session =
     \<lparr>detectors = [''a.mp4'' \<mapsto> rearmed_detector],
      accident_states = [(''a.mp4'', idle_state\<lparr>last_event_time := 2005 / 2\<rparr>)]\<rparr>"

definition first_env :: tick_env where
  "first_env =
     \<lparr>t_now = 1002, t_check = 1002, create_result = Some 7, t_set = 2005 / 2,
      clip_env = no_ffmpeg, t_safety = (\<lambda>cam. 1003), safety_env = (\<lambda>cam. no_ffmpeg)\<rparr>"

definition second_env :: tick_env where
  "second_env =
     \<lparr>t_now = 1017, t_check = 1017, create_result = Some 8, t_set = 1017,
      clip_env = no_ffmpeg, t_safety = (\<lambda>cam. 1017), safety_env = (\<lambda>cam. no_ffmpeg)\<rparr>"

lemma tick_first_session:
  "tick first_env first_session ''a.mp4'' (Image 3) [9 / 10] =
     (\<lparr>detectors =
         [''a.mp4'' \<mapsto>
            \<lparr>fps = 1, frame_id = 3,
             frame_buffer = [(Image 1, 1), (Image 2, 2), (Image 3, 3)],
             pending = [], global_last = 1002,
             active_clip = Some \<lparr>clip_start = - 2, clip_end = 8,
                                  clip_frames = [Image 1, Image 2, Image 3],
                                  clip_last = 3\<rparr>\<rparr>],
       accident_states =
         [(''a.mp4'', idle_state\<lparr>active := True, accident_id := Some 7,
                                  last_event_time := 2005 / 2\<rparr>)]\<rparr>,
      [CreateAccident ''CAM001'' 11 75])"
  by (simp add: tick_def frame_steps_def safety_net_def safety_check_def first_env_def
      first_session_def armed_detector_def idle_state_def truthy_id_def process_frame_def
      start_clip_def handle_clip_def deque_append_def GLOBAL_COOLDOWN_def Let_def)

lemma tick_second_session:
  "tick second_env second_session ''a.mp4'' (Image 12) [9 / 10] =
     (\<lparr>detectors =
         [''a.mp4'' \<mapsto>
            \<lparr>fps = 1, frame_id = 12,
             frame_buffer = [(Image 10, 10), (Image 11, 11), (Image 12, 12)],
             pending = [], global_last = 1017,
             active_clip = Some \<lparr>clip_start = 7, clip_end = 17,
                                  clip_frames = [Image 10, Image 11, Image 12],
                                  clip_last = 12\<rparr>\<rparr>],
       accident_states = [(''a.mp4'', idle_state\<lparr>last_event_time := 2005 / 2\<rparr>)]\<rparr>,
      [])"
  by (simp add: tick_def frame_steps_def safety_net_def safety_check_def second_env_def
      second_session_def rearmed_detector_def idle_state_def truthy_id_def process_frame_def
      start_clip_def handle_clip_def deque_append_def GLOBAL_COOLDOWN_def Let_def)

theorem record_creation_cooldown_witness:
  "map_of (accident_states first_session) ''a.mp4'' = Some idle_state \<and>
   detectors first_session ''a.mp4'' = Some armed_detector \<and>
   \<not> active idle_state \<and>
   fst (process_frame armed_detector (Image 3) [9 / 10] (t_now first_env)) \<noteq> [] \<and>
   t_check first_env - last_event_time idle_state > 45 \<and>
   truthy_id (create_result first_env) \<and>
   snd (tick first_env first_session ''a.mp4'' (Image 3) [9 / 10]) =
     [CreateAccident ''CAM001'' 11 75] \<and>
   map_of (accident_states (fst (tick first_env first_session ''a.mp4'' (Image 3) [9 / 10])))
       ''a.mp4'' =
     Some (idle_state\<lparr>active := True, accident_id := Some 7, last_event_time := 2005 / 2\<rparr>) \<and>
   map_of (accident_states second_session) ''a.mp4'' =
     Some (idle_state\<lparr>last_event_time := 2005 / 2\<rparr>) \<and>
   t_check second_env - 2005 / 2 \<le> 45 \<and>
   fst (process_frame rearmed_detector (Image 12) [9 / 10] (t_now second_env)) =
     [\<lparr>ev_type = ''ACCIDENT'', ev_time = 1017\<rparr>] \<and>
   snd (run_ticks second_session [(second_env, ''a.mp4'', Image 12, [9 / 10])]) = [[]]"
  using record_creation_cooldown
      [of first_session "''a.mp4''" idle_state first_env "Image 3" "[9 / 10]" "[]" armed_detector]
    record_creation_cooldown
      [of second_session "''a.mp4''" "idle_state\<lparr>last_event_time := 2005 / 2\<rparr>" second_env
          "Image 12" "[9 / 10]" "[(second_env, ''a.mp4'', Image 12, [9 / 10])]" rearmed_detector]
  unfolding run_ticks_Cons tick_first_session tick_second_session
  by (simp add: first_session_def second_session_def first_env_def second_env_def
      armed_detector_def rearmed_detector_def idle_state_def truthy_id_def process_frame_def
      start_clip_def GLOBAL_COOLDOWN_def Let_def)

section \<open>Upload outcome and the session state\<close>

text \<open>
  C7 as stated fails: an upload process that finds its clip file missing returns at once.
  It asks the record store for nothing, so the record is not marked UPLOAD_FAILED.
\<close>

theorem upload_missing_file_marks_nothing:
  "upload_clip_async \<lparr>file_exists = False, storage = StorageError, remove_ok = True\<rparr>
     ''events/ACCIDENT_1003.mp4'' 7 = []"
  by (simp add: upload_clip_async_def)

lemma trim_loop_dispatch:
  "StartUpload p a \<in> set (snd (trim_loop aid st evs)) \<Longrightarrow>
   a = aid \<and> p \<noteq> [] \<and>
   fst (trim_loop aid st evs) = st\<lparr>active := False, accident_id := None\<rparr> \<and>
   snd (trim_loop aid st evs) =
     [UpdateAccident aid [(''status'', ''TRIMMED''), (''clip_path'', p)], StartUpload p aid]"
  by (induction evs) (auto split: if_splits)

text \<open>
  C7, amended.  An upload process whose clip file exists and whose upload fails (opening
  the file, the storage upload or the URL lookup raises) asks the record store to mark the
  record UPLOAD_FAILED with the clip path, and does not remove the file.  An upload process
  whose clip file is missing does nothing.  The loop that starts an upload process returns
  the camera's state inactive and without record id in the same step, and the session loop
  never reads the outcome of an upload: an inactive camera whose detector triggers more
  than 45 seconds after its \<^verbatim>\<open>last_event_time\<close> gets its record request whatever happened to
  the upload.
\<close>

theorem upload_failure_is_marked_and_isolated:
  "(file_exists uenv \<and> storage uenv \<in> {OpenError, StorageError, UrlError} \<longrightarrow>
      UpdateAccident aid [(''status'', ''UPLOAD_FAILED''), (''clip_path'', path)]
        \<in> set (upload_clip_async uenv path aid) \<and>
      RemoveFile path \<notin> set (upload_clip_async uenv path aid) \<and>
      (\<forall>data. UpdateAccident aid data \<in> set (upload_clip_async uenv path aid) \<longrightarrow>
         data = [(''status'', ''UPLOAD_FAILED''), (''clip_path'', path)])) \<and>
   (\<not> file_exists uenv \<longrightarrow> upload_clip_async uenv path aid = []) \<and>
   (StartUpload p a \<in> set (snd (trim_loop aid st evs)) \<longrightarrow>
      a = aid \<and>
      fst (trim_loop aid st evs) = st\<lparr>active := False, accident_id := None\<rparr> \<and>
      snd (trim_loop aid st evs) =
        [UpdateAccident aid [(''status'', ''TRIMMED''), (''clip_path'', p)], StartUpload p aid]) \<and>
   (map_of (accident_states s) cam = Some st' \<and> detectors s cam = Some det \<and>
    \<not> active st' \<and> fst (process_frame det frm boxes (t_now env)) \<noteq> [] \<and>
    t_check env - last_event_time st' > 45 \<and> truthy_id (create_result env) \<longrightarrow>
      CreateAccident (camera_id st') (latitude st') (longitude st')
        \<in> set (snd (tick env s cam frm boxes)))"
proof (intro conjI impI)
  assume a: "file_exists uenv \<and> storage uenv \<in> {OpenError, StorageError, UrlError}"
  then show "UpdateAccident aid [(''status'', ''UPLOAD_FAILED''), (''clip_path'', path)]
      \<in> set (upload_clip_async uenv path aid)"
    by (auto simp: upload_clip_async_def)
  from a show "RemoveFile path \<notin> set (upload_clip_async uenv path aid)"
    by (auto simp: upload_clip_async_def)
  from a show "\<forall>data. UpdateAccident aid data \<in> set (upload_clip_async uenv path aid) \<longrightarrow>
      data = [(''status'', ''UPLOAD_FAILED''), (''clip_path'', path)]"
    by (auto simp: upload_clip_async_def)
next
  assume "\<not> file_exists uenv"
  then show "upload_clip_async uenv path aid = []"
    by (simp add: upload_clip_async_def)
next
  assume d: "StartUpload p a \<in> set (snd (trim_loop aid st evs))"
  from trim_loop_dispatch [OF d]
  show "a = aid"
    and "fst (trim_loop aid st evs) = st\<lparr>active := False, accident_id := None\<rparr>"
    and "snd (trim_loop aid st evs) =
      [UpdateAccident aid [(''status'', ''TRIMMED''), (''clip_path'', p)], StartUpload p aid]"
    by simp_all
next
  assume "map_of (accident_states s) cam = Some st' \<and> detectors s cam = Some det \<and>
    \<not> active st' \<and> fst (process_frame det frm boxes (t_now env)) \<noteq> [] \<and>
    t_check env - last_event_time st' > 45 \<and> truthy_id (create_result env)"
  then show "CreateAccident (camera_id st') (latitude st') (longitude st')
      \<in> set (snd (tick env s cam frm boxes))"
    using tick_creates [of s cam st' det frm boxes env] by blast
qed


definition third_env :: tick_env where
  "third_env =
     \<lparr>t_now = 1050, t_check = 1050, create_result = Some 8, t_set = 1050,
      clip_env = no_ffmpeg, t_safety = (\<lambda>cam. 1050), safety_env = (\<lambda>cam. no_ffmpeg)\<rparr>"

lemma upload_eval_failed:
  "upload_clip_async \<lparr>file_exists = True, storage = StorageError, remove_ok = True\<rparr>
       ''events/ACCIDENT_1003.avi'' 7 =
     [StorageUpload ''events/ACCIDENT_1003.avi'',
      UpdateAccident 7 [(''status'', ''UPLOAD_FAILED''),
                        (''clip_path'', ''events/ACCIDENT_1003.avi'')]]"
  by (simp add: upload_clip_async_def)

lemma trim_eval:
  "trim_loop 7 stuck_state [\<lparr>cev_type = ''ACCIDENT'', clip_path = ''events/ACCIDENT_1003.avi''\<rparr>] =
     (stuck_state\<lparr>active := False, accident_id := None\<rparr>,
      [UpdateAccident 7 [(''status'', ''TRIMMED''), (''clip_path'', ''events/ACCIDENT_1003.avi'')],
       StartUpload ''events/ACCIDENT_1003.avi'' 7])"
  by simp

lemma second_session_lookup:
  "map_of (accident_states second_session) ''a.mp4'' =
     Some (idle_state\<lparr>last_event_time := 2005 / 2\<rparr>) \<and>
   detectors second_session ''a.mp4'' = Some rearmed_detector"
  by (simp add: second_session_def)

lemma rearmed_fires:
  "fst (process_frame rearmed_detector (Image 12) [9 / 10] (t_now third_env)) \<noteq> []"
  by (simp add: third_env_def rearmed_detector_def process_frame_def GLOBAL_COOLDOWN_def Let_def)

lemma third_env_check:
  "\<not> active (idle_state\<lparr>last_event_time := 2005 / 2\<rparr>) \<and>
   t_check third_env - 2005 / 2 > 45 \<and> truthy_id (create_result third_env)"
  by (simp add: third_env_def idle_state_def truthy_id_def)

theorem upload_failure_is_marked_and_isolated_witness:
  "file_exists \<lparr>file_exists = True, storage = StorageError, remove_ok = True\<rparr> \<and>
   upload_clip_async \<lparr>file_exists = True, storage = StorageError, remove_ok = True\<rparr>
       ''events/ACCIDENT_1003.avi'' 7 =
     [StorageUpload ''events/ACCIDENT_1003.avi'',
      UpdateAccident 7 [(''status'', ''UPLOAD_FAILED''),
                        (''clip_path'', ''events/ACCIDENT_1003.avi'')]] \<and>
   trim_loop 7 stuck_state [\<lparr>cev_type = ''ACCIDENT'', clip_path = ''events/ACCIDENT_1003.avi''\<rparr>] =
     (stuck_state\<lparr>active := False, accident_id := None\<rparr>,
      [UpdateAccident 7 [(''status'', ''TRIMMED''), (''clip_path'', ''events/ACCIDENT_1003.avi'')],
       StartUpload ''events/ACCIDENT_1003.avi'' 7]) \<and>
   map_of (accident_states second_session) ''a.mp4'' =
     Some (idle_state\<lparr>last_event_time := 2005 / 2\<rparr>) \<and>
   \<not> active (idle_state\<lparr>last_event_time := 2005 / 2\<rparr>) \<and>
   fst (process_frame rearmed_detector (Image 12) [9 / 10] (t_now third_env)) \<noteq> [] \<and>
   t_check third_env - 2005 / 2 > 45 \<and>
   CreateAccident ''CAM001'' 11 75
     \<in> set (snd (tick third_env second_session ''a.mp4'' (Image 12) [9 / 10])) \<and>
   \<not> file_exists \<lparr>file_exists = False, storage = StorageError, remove_ok = True\<rparr> \<and>
   upload_clip_async \<lparr>file_exists = False, storage = StorageError, remove_ok = True\<rparr>
       ''events/ACCIDENT_1003.avi'' 7 = []"
proof -
  note inst = upload_failure_is_marked_and_isolated
      [of "\<lparr>file_exists = True, storage = StorageError, remove_ok = True\<rparr>" 7
          "''events/ACCIDENT_1003.avi''" "''events/ACCIDENT_1003.avi''" 7 stuck_state
          "[\<lparr>cev_type = ''ACCIDENT'', clip_path = ''events/ACCIDENT_1003.avi''\<rparr>]"
          second_session "''a.mp4''" "idle_state\<lparr>last_event_time := 2005 / 2\<rparr>"
          rearmed_detector "Image 12" "[9 / 10]" third_env]
  note miss = upload_failure_is_marked_and_isolated
      [of "\<lparr>file_exists = False, storage = StorageError, remove_ok = True\<rparr>" 7
          "''events/ACCIDENT_1003.avi''" "''events/ACCIDENT_1003.avi''" 7 stuck_state
          "[\<lparr>cev_type = ''ACCIDENT'', clip_path = ''events/ACCIDENT_1003.avi''\<rparr>]"
          second_session "''a.mp4''" "idle_state\<lparr>last_event_time := 2005 / 2\<rparr>"
          rearmed_detector "Image 12" "[9 / 10]" third_env]
  have hyp: "map_of (accident_states second_session) ''a.mp4'' =
        Some (idle_state\<lparr>last_event_time := 2005 / 2\<rparr>) \<and>
      detectors second_session ''a.mp4'' = Some rearmed_detector \<and>
      \<not> active (idle_state\<lparr>last_event_time := 2005 / 2\<rparr>) \<and>
      fst (process_frame rearmed_detector (Image 12) [9 / 10] (t_now third_env)) \<noteq> [] \<and>
      t_check third_env - last_event_time (idle_state\<lparr>last_event_time := 2005 / 2\<rparr>) > 45 \<and>
      truthy_id (create_result third_env)"
    using second_session_lookup rearmed_fires third_env_check by simp
  from inst hyp have created: "CreateAccident
      (camera_id (idle_state\<lparr>last_event_time := 2005 / 2\<rparr>))
      (latitude (idle_state\<lparr>last_event_time := 2005 / 2\<rparr>))
      (longitude (idle_state\<lparr>last_event_time := 2005 / 2\<rparr>))
      \<in> set (snd (tick third_env second_session ''a.mp4'' (Image 12) [9 / 10]))"
    by blast
  have "\<not> file_exists \<lparr>file_exists = False, storage = StorageError, remove_ok = True\<rparr>"
    by simp
  with miss have missing: "upload_clip_async
      \<lparr>file_exists = False, storage = StorageError, remove_ok = True\<rparr>
      ''events/ACCIDENT_1003.avi'' 7 = []"
    by blast
  from created have "CreateAccident ''CAM001'' 11 75
      \<in> set (snd (tick third_env second_session ''a.mp4'' (Image 12) [9 / 10]))"
    by (simp add: idle_state_def)
  with missing upload_eval_failed trim_eval second_session_lookup rearmed_fires third_env_check
  show ?thesis
    by simp
qed

section \<open>Frame channel and capture threads (engine/multithreading_tracker.py)\<close>

text \<open>
  A message of the channel is the tuple \<^verbatim>\<open>(True, source_id, frame, time.time())\<close>.  The
  channel is a \<^verbatim>\<open>queue.Queue(maxsize)\<close>: \<^verbatim>\<open>full()\<close> and \<^verbatim>\<open>put()\<close> each take the queue's
  lock, so each is one atomic step; \<^verbatim>\<open>put()\<close> with its default arguments waits while the
  queue is full.
\<close>

type_synonym frame_msg = "bool \<times> string \<times> frame \<times> real"

definition queue_full :: "nat \<Rightarrow> 'a list \<Rightarrow> bool" where
  "queue_full maxsize q = (0 < maxsize \<and> maxsize \<le> length q)"

text \<open>\<^verbatim>\<open>put(item)\<close>: \<^verbatim>\<open>None\<close> when the caller has to wait for a free slot.\<close>

definition queue_put :: "nat \<Rightarrow> 'a list \<Rightarrow> 'a \<Rightarrow> 'a list option" where
  "queue_put maxsize q item =
     (if maxsize > 0 \<and> length q \<ge> maxsize then None else Some (q @ [item]))"

text \<open>
  Where a capture thread stands in \<^verbatim>\<open>_capture_loop\<close>: at the loop head, between the test
  \<^verbatim>\<open>not self.frame_queue.full()\<close> and the call of \<^verbatim>\<open>put\<close> (with the tuple to put), waiting
  inside \<^verbatim>\<open>put\<close>, or past the loop (\<^verbatim>\<open>cap.release()\<close>).
\<close>

datatype capture_pc = AtLoop | AtPut frame_msg | Waiting frame_msg | Released

record tracker =
  frame_queue :: "frame_msg list"
  queue_size :: nat
  running :: bool
  capture :: "string \<Rightarrow> capture_pc"

text \<open>
  \<^verbatim>\<open>MultiThreadingTracker(queue_size)\<close> followed by \<^verbatim>\<open>start_cap_thread\<close>: every capture thread
  is at its loop head.
\<close>

definition start_tracker :: "nat \<Rightarrow> tracker" where
  "start_tracker n =
     \<lparr>frame_queue = [], queue_size = n, running = True, capture = (\<lambda>source_id. AtLoop)\<rparr>"

text \<open>
  The atomic steps.  \<open>Iterate\<close> is a capture thread going from the loop head through
  \<^verbatim>\<open>cap.read()\<close> (with its result) and the test of \<^verbatim>\<open>full()\<close>; \<open>Put\<close> is the same thread
  calling or retrying \<^verbatim>\<open>put\<close>; \<open>Get\<close> is the consumer taking a message.
\<close>

datatype sched = Iterate string bool frame real | Put string | Get

fun tracker_step :: "tracker \<Rightarrow> sched \<Rightarrow> tracker" where
  "tracker_step t (Iterate source_id ret frm now) =
     (case capture t source_id of
        AtLoop \<Rightarrow>
          if \<not> running t then t\<lparr>capture := (capture t)(source_id := Released)\<rparr>
          else if \<not> ret then t\<lparr>capture := (capture t)(source_id := Released)\<rparr>
          else if \<not> queue_full (queue_size t) (frame_queue t)
            then t\<lparr>capture := (capture t)(source_id := AtPut (True, source_id, frm, now))\<rparr>
          else t
      | _ \<Rightarrow> t)"
| "tracker_step t (Put source_id) =
     (let put = (\<lambda>msg. case queue_put (queue_size t) (frame_queue t) msg of
                          None \<Rightarrow> t\<lparr>capture := (capture t)(source_id := Waiting msg)\<rparr>
                        | Some q \<Rightarrow> t\<lparr>frame_queue := q,
                                       capture := (capture t)(source_id := AtLoop)\<rparr>)
      in case capture t source_id of
           AtPut msg \<Rightarrow> put msg
         | Waiting msg \<Rightarrow> put msg
         | _ \<Rightarrow> t)"
| "tracker_step t Get = t\<lparr>frame_queue := tl (frame_queue t)\<rparr>"

definition tracker_run :: "tracker \<Rightarrow> sched list \<Rightarrow> tracker" where
  "tracker_run t steps = foldl tracker_step t steps"

text \<open>
  When nothing comes between the test and the call, a loop iteration does what C9 says:
  a full channel drops the frame, otherwise the tuple with source id and timestamp is
  appended, and the thread is back at the loop head without having waited.
\<close>

lemma capture_iteration_alone:
  assumes "capture t source_id = AtLoop" and "running t"
  shows "tracker_run t [Iterate source_id True frm now, Put source_id] =
           (if queue_full (queue_size t) (frame_queue t) then t
            else t\<lparr>frame_queue := frame_queue t @ [(True, source_id, frm, now)]\<rparr>)"
  using assms
  by (auto simp: tracker_run_def queue_full_def queue_put_def fun_upd_idem)

text \<open>
  Two cameras share the channel of the session (\<^verbatim>\<open>queue_size=20\<close>).  The first camera
  fills nineteen slots; then both threads pass the test of \<^verbatim>\<open>full()\<close> before either calls
  \<^verbatim>\<open>put\<close>.
\<close>

definition nineteen :: "sched list" where
  "nineteen =
     concat (map (\<lambda>k. [Iterate ''a.mp4'' True (Image k) (real k), Put ''a.mp4'']) [1..<20])"

definition race :: "sched list" where
  "race =
     [Iterate ''a.mp4'' True (Image 20) 20, Iterate ''b.mp4'' True (Image 21) 20,
      Put ''a.mp4'', Put ''b.mp4'']"

lemma run_nineteen:
  "tracker_run (start_tracker 20) nineteen =
     \<lparr>frame_queue = map (\<lambda>k. (True, ''a.mp4'', Image k, real k)) [1..<20],
      queue_size = 20, running = True, capture = (\<lambda>source_id. AtLoop)\<rparr>"
  by (simp add: nineteen_def tracker_run_def start_tracker_def queue_full_def queue_put_def
      upt_rec fun_upd_idem)

text \<open>
  C9 fails on the code: the second thread is inside \<^verbatim>\<open>put\<close> with the channel full.  Its
  frame is neither dropped nor enqueued; the producer waits until the consumer takes a
  message.
\<close>

theorem producer_blocks_in_put:
  "capture (tracker_run (start_tracker 20) (nineteen @ race)) ''b.mp4'' =
     Waiting (True, ''b.mp4'', Image 21, 20) \<and>
   length (frame_queue (tracker_run (start_tracker 20) (nineteen @ race))) = 20 \<and>
   queue_full 20 (frame_queue (tracker_run (start_tracker 20) (nineteen @ race))) \<and>
   capture (tracker_run (start_tracker 20) (nineteen @ race @ [Put ''b.mp4''])) ''b.mp4'' =
     Waiting (True, ''b.mp4'', Image 21, 20) \<and>
   capture (tracker_run (start_tracker 20) (nineteen @ race @ [Get, Put ''b.mp4''])) ''b.mp4'' =
     AtLoop"
proof -
  have split: "tracker_run (start_tracker 20) (nineteen @ steps) =
      tracker_run (tracker_run (start_tracker 20) nineteen) steps" for steps
    by (simp add: tracker_run_def)
  show ?thesis
    unfolding split run_nineteen
    by (simp add: race_def tracker_run_def queue_full_def queue_put_def upt_rec)
qed

end
